theory Spec2Isabelle
  imports Main "HOL-Library.Word" "HOL-Library.Log_Nat"
begin

section \<open>JavaScript values used by the StudyFlow component\<close>

text \<open>
  A JavaScript string is a sequence of UTF-16 code units.  ASCII literals of the source
  are written \<open>js_str ''...''\<close>.
\<close>

type_synonym js_string = "16 word list"

definition js_str :: "string \<Rightarrow> js_string" where
  "js_str s = map (\<lambda>c. of_nat (of_char c)) s"

text \<open>
  \<open>String.prototype.trim\<close> removes the code units of the ECMAScript productions
  WhiteSpace and LineTerminator from both ends of the string.
\<close>

definition is_white_space :: "16 word \<Rightarrow> bool" where
  "is_white_space c \<longleftrightarrow>
     c = 0x9 \<or> c = 0xA \<or> c = 0xB \<or> c = 0xC \<or> c = 0xD \<or> c = 0x20 \<or> c = 0xA0 \<or>
     c = 0x1680 \<or> (0x2000 \<le> c \<and> c \<le> 0x200A) \<or> c = 0x2028 \<or> c = 0x2029 \<or>
     c = 0x202F \<or> c = 0x205F \<or> c = 0x3000 \<or> c = 0xFEFF"

definition trim :: "js_string \<Rightarrow> js_string" where
  "trim s = rev (dropWhile is_white_space (rev (dropWhile is_white_space s)))"

text \<open>
  \<open>Array.prototype.filter\<close> and \<open>Array.prototype.map\<close> hand the callback the element
  and its 0-based position; both walk the array from the front.
\<close>

fun filter_from :: "nat \<Rightarrow> ('a \<Rightarrow> nat \<Rightarrow> bool) \<Rightarrow> 'a list \<Rightarrow> 'a list" where
  "filter_from i p [] = []"
| "filter_from i p (x # xs) =
     (if p x i then x # filter_from (Suc i) p xs else filter_from (Suc i) p xs)"

definition js_filter :: "('a \<Rightarrow> nat \<Rightarrow> bool) \<Rightarrow> 'a list \<Rightarrow> 'a list" where
  "js_filter p xs = filter_from 0 p xs"

fun map_from :: "nat \<Rightarrow> ('a \<Rightarrow> nat \<Rightarrow> 'b) \<Rightarrow> 'a list \<Rightarrow> 'b list" where
  "map_from i f [] = []"
| "map_from i f (x # xs) = f x i # map_from (Suc i) f xs"

definition js_map :: "('a \<Rightarrow> nat \<Rightarrow> 'b) \<Rightarrow> 'a list \<Rightarrow> 'b list" where
  "js_map f xs = map_from 0 f xs"

section \<open>JavaScript numbers\<close>

text \<open>
  A JavaScript number is an IEEE 754 binary64 value.  The finite ones are rationals with a
  significand of 53 bits, and an arithmetic operation returns its exact result rounded to
  the nearest of them, a tie going to the even significand: \<open>fl\<close>.  The exponent is not
  bounded here: the numbers of this component are far from overflow and underflow.
\<close>

definition round_even :: "rat \<Rightarrow> int" where
  "round_even x =
     (let f = \<lfloor>x\<rfloor>; r = x - of_int f
      in if r < 1 / 2 then f else if 1 / 2 < r then f + 1 else if even f then f else f + 1)"

text \<open>The binary exponent of a positive rational: \<open>2 powi ilog2 x \<le> x < 2 powi (ilog2 x + 1)\<close>.\<close>

definition ilog2 :: "rat \<Rightarrow> int" where
  "ilog2 x = (if 1 \<le> x then bitlen \<lfloor>x\<rfloor> - 1 else - bitlen (\<lceil>1 / x\<rceil> - 1))"

definition fl :: "rat \<Rightarrow> rat" where
  "fl x =
     (if x = 0 then 0
      else let u = 2 powi (ilog2 \<bar>x\<bar> - 52) in of_int (round_even (x / u)) * u)"

text \<open>
  \<open>Math.round\<close> returns the nearest integer, a tie going up; \<open>Math.ceil\<close> the least
  integer not below its argument.
\<close>

definition math_round :: "rat \<Rightarrow> int" where
  "math_round x = \<lfloor>x + 1 / 2\<rfloor>"

definition math_ceil :: "rat \<Rightarrow> int" where
  "math_ceil x = \<lceil>x\<rceil>"

section \<open>The component state and its handlers\<close>

text \<open>
  The \<open>useState\<close> cells of \<open>App\<close>.  A handler reads the cells of the current render and
  returns the state after its setters have run.
\<close>

record app_state =
  examDate :: js_string
  subjects :: "js_string list"
  newSubject :: js_string
  weakTopics :: "js_string list"
  newWeakTopic :: js_string
  dailyHours :: int
  aiPlan :: "js_string option"
  isGenerating :: bool

text \<open>The empty string is the only falsy string, so \<open>if (s.trim())\<close> tests non-emptiness.\<close>

definition handleAddSubject :: "app_state \<Rightarrow> app_state" where
  "handleAddSubject st =
     (if trim (newSubject st) \<noteq> []
      then st\<lparr>subjects := subjects st @ [trim (newSubject st)], newSubject := []\<rparr>
      else st)"

definition handleRemoveSubject :: "int \<Rightarrow> app_state \<Rightarrow> app_state" where
  "handleRemoveSubject index st =
     st\<lparr>subjects := js_filter (\<lambda>_ i. int i \<noteq> index) (subjects st)\<rparr>"

definition handleAddWeakTopic :: "app_state \<Rightarrow> app_state" where
  "handleAddWeakTopic st =
     (if trim (newWeakTopic st) \<noteq> []
      then st\<lparr>weakTopics := weakTopics st @ [trim (newWeakTopic st)], newWeakTopic := []\<rparr>
      else st)"

definition handleRemoveWeakTopic :: "int \<Rightarrow> app_state \<Rightarrow> app_state" where
  "handleRemoveWeakTopic index st =
     st\<lparr>weakTopics := js_filter (\<lambda>_ i. int i \<noteq> index) (weakTopics st)\<rparr>"

text \<open>
  The operations of the configuration store: the text field's \<open>onChange\<close> stores the
  typed name in its cell, then the button runs the handler.
\<close>

definition addSubject :: "js_string \<Rightarrow> app_state \<Rightarrow> app_state" where
  "addSubject name st = handleAddSubject (st\<lparr>newSubject := name\<rparr>)"

definition addWeakTopic :: "js_string \<Rightarrow> app_state \<Rightarrow> app_state" where
  "addWeakTopic name st = handleAddWeakTopic (st\<lparr>newWeakTopic := name\<rparr>)"

text \<open>The state of the first render, for an initial value \<open>d\<close> of the exam date field.\<close>

definition initial_state :: "js_string \<Rightarrow> app_state" where
  "initial_state d =
     \<lparr>examDate = d,
      subjects = [js_str ''Mathematics'', js_str ''Physics''],
      newSubject = [],
      weakTopics = [js_str ''Calculus'', js_str ''Quantum Mechanics''],
      newWeakTopic = [],
      dailyHours = 4,
      aiPlan = None,
      isGenerating = False\<rparr>"

text \<open>
  The other setters, and the states the component can reach from its first render by the
  events of its controls.  The exam date and the two text fields give any string; the
  slider of the daily hours has \<open>min="1"\<close> and \<open>max="16"\<close>, so its change event carries
  an integer from 1 to 16; the plan request changes only the plan and its flag.
\<close>

definition setExamDate :: "js_string \<Rightarrow> app_state \<Rightarrow> app_state" where
  "setExamDate d st = st\<lparr>examDate := d\<rparr>"

definition setDailyHours :: "int \<Rightarrow> app_state \<Rightarrow> app_state" where
  "setDailyHours n st = st\<lparr>dailyHours := n\<rparr>"

inductive reachable :: "app_state \<Rightarrow> bool" where
  first_render: "reachable (initial_state d)"
| exam_date_changed: "reachable st \<Longrightarrow> reachable (setExamDate d st)"
| slider_changed: "reachable st \<Longrightarrow> 1 \<le> n \<Longrightarrow> n \<le> 16 \<Longrightarrow> reachable (setDailyHours n st)"
| subject_typed: "reachable st \<Longrightarrow> reachable (st\<lparr>newSubject := s\<rparr>)"
| weak_topic_typed: "reachable st \<Longrightarrow> reachable (st\<lparr>newWeakTopic := s\<rparr>)"
| subject_added: "reachable st \<Longrightarrow> reachable (handleAddSubject st)"
| subject_removed: "reachable st \<Longrightarrow> reachable (handleRemoveSubject index st)"
| weak_topic_added: "reachable st \<Longrightarrow> reachable (handleAddWeakTopic st)"
| weak_topic_removed: "reachable st \<Longrightarrow> reachable (handleRemoveWeakTopic index st)"
| plan_changed: "reachable st \<Longrightarrow> reachable (st\<lparr>aiPlan := p, isGenerating := g\<rparr>)"

section \<open>Dates\<close>

text \<open>
  A \<open>Date\<close> holds a time value: the milliseconds since 1970-01-01T00:00Z.  The value
  of \<open>new Date(s)\<close> for a string that does not parse is the invalid date, written
  \<open>None\<close>; \<open>new Date()\<close> is always valid.  For the schedule and the mock test the
  local time zone is \<open>tz\<close> milliseconds ahead of UTC, so that a local day is \<open>msPerDay\<close>
  long; for the days left, further down, the offset may change with the instant.
\<close>

definition msPerDay :: int where
  "msPerDay = 86400000"

text \<open>\<open>addDays\<close> of date-fns moves the local calendar date and keeps the time of day.\<close>

definition addDays :: "int \<Rightarrow> int \<Rightarrow> int" where
  "addDays d amount = d + amount * msPerDay"








text \<open>\<open>Date.prototype.getDay\<close>: the local day of the week, 0 for Sunday; day 0 of the
  epoch was a Thursday.\<close>

definition local_day :: "int \<Rightarrow> int \<Rightarrow> int" where
  "local_day tz t = (t + tz) div msPerDay"

definition getDay :: "int \<Rightarrow> int \<Rightarrow> int" where
  "getDay tz t = (local_day tz t + 4) mod 7"

text \<open>
  The proleptic Gregorian calendar of \<open>Date\<close>: the day number of a civil date, as used
  by \<open>new Date(''yyyy-MM-dd'')\<close> (midnight UTC of that date), and the civil date of a
  day number, as printed by \<open>format(d, 'yyyy-MM-dd')\<close>.
\<close>

definition days_from_civil :: "int \<Rightarrow> int \<Rightarrow> int \<Rightarrow> int" where
  "days_from_civil y m d =
     (let y' = (if m \<le> 2 then y - 1 else y);
          era = y' div 400;
          yoe = y' - era * 400;
          doy = (153 * (if 2 < m then m - 3 else m + 9) + 2) div 5 + d - 1;
          doe = yoe * 365 + yoe div 4 - yoe div 100 + doy
      in era * 146097 + doe - 719468)"

definition civil_from_days :: "int \<Rightarrow> int \<times> int \<times> int" where
  "civil_from_days z =
     (let z' = z + 719468;
          era = z' div 146097;
          doe = z' mod 146097;
          yoe = (doe - doe div 1460 + doe div 36524 - doe div 146096) div 365;
          doy = doe - (365 * yoe + yoe div 4 - yoe div 100);
          mp = (5 * doy + 2) div 153;
          d = doy - (153 * mp + 2) div 5 + 1;
          m = (if mp < 10 then mp + 3 else mp - 9)
      in (if m \<le> 2 then yoe + era * 400 + 1 else yoe + era * 400, m, d))"

definition utc_midnight :: "int \<Rightarrow> int \<Rightarrow> int \<Rightarrow> int" where
  "utc_midnight y m d = days_from_civil y m d * msPerDay"

definition format_ymd :: "int \<Rightarrow> int \<Rightarrow> int \<times> int \<times> int" where
  "format_ymd tz t = civil_from_days (local_day tz t)"


section \<open>The derived values of \<open>App\<close>\<close>


record interval =
  day :: int
  date :: int

record SpacedRepetitionItem =
  topic :: js_string
  intervals :: "interval list"

text \<open>All the \<open>new Date()\<close> calls of one render are taken at the same instant \<open>now\<close>.\<close>

definition spacedRepetitionSchedule :: "js_string list \<Rightarrow> int \<Rightarrow> SpacedRepetitionItem list" where
  "spacedRepetitionSchedule wts now =
     js_map (\<lambda>t index.
        \<lparr>topic = t,
         intervals = map (\<lambda>dy. \<lparr>day = dy, date = addDays now (dy + int index)\<rparr>)
                         [1, 3, 7, 14, 30]\<rparr>) wts"

text \<open>The weekly mock test: \<open>addDays(new Date(), 7 - new Date().getDay())\<close>.\<close>

definition nextMockTestDate :: "int \<Rightarrow> int \<Rightarrow> int" where
  "nextMockTestDate tz now = addDays now (7 - getDay tz now)"

text \<open>
  The calendar week of an instant, weeks starting on day-index 0 (Sunday) and numbered
  from the week of the epoch.
\<close>

definition week_of :: "int \<Rightarrow> int \<Rightarrow> int" where
  "week_of tz t = (local_day tz t + 4) div 7"

text \<open>
  The priority focus: \<open>weakTopics[0]\<close> is \<open>undefined\<close> (here \<open>None\<close>) on the empty array;
  the paragraph shows \<open>weakTopics[0] || 'your core subjects'\<close>, where \<open>undefined\<close> and the
  empty string are falsy.
\<close>

definition focusTopic :: "js_string list \<Rightarrow> js_string option" where
  "focusTopic wts = (case wts of [] \<Rightarrow> None | t # _ \<Rightarrow> Some t)"

definition focusText :: "js_string list \<Rightarrow> js_string" where
  "focusText wts =
     (case focusTopic wts of
        None \<Rightarrow> js_str ''your core subjects''
      | Some t \<Rightarrow> (if t = [] then js_str ''your core subjects'' else t))"

text \<open>
  The readiness score, from \<open>daysLeft\<close> and the weak topics.  Every operation on numbers
  rounds its result; \<open>Math.max\<close> and \<open>Math.min\<close> return one of their arguments.
\<close>

definition readinessScore :: "int \<Rightarrow> js_string list \<Rightarrow> int" where
  "readinessScore days wts =
     (let topicPenalty = fl (of_nat (length wts) * 5);
          timeBonus = min 50 (fl (fl (of_int days / 60) * 50));
          score = max 0 (min 100 (fl (fl (50 - topicPenalty) + timeBonus)))
      in math_round score)"

text \<open>
  The hours of the priority focus, \<open>Math.ceil(dailyHours * 0.4)\<close>: the literal \<open>0.4\<close>
  denotes the binary64 value nearest to 2/5.
\<close>

definition recommendedHours :: "int \<Rightarrow> int" where
  "recommendedHours hours = math_ceil (fl (of_int hours * fl (2 / 5)))"

text \<open>
  The readiness score of the specification, in exact arithmetic: the score is clamped to
  the interval from 0 to 100, then rounded to the nearest integer (a tie going up).
\<close>

definition spec_readinessScore :: "int \<Rightarrow> nat \<Rightarrow> int" where
  "spec_readinessScore days weakTopicCount =
     round (max 0 (min 100
       (50 - of_nat weakTopicCount * 5 + min 50 (of_int days / 60 * 50 :: rat))))"

text \<open>The recommended hours of the specification, in exact arithmetic.\<close>

definition spec_recommendedHours :: "int \<Rightarrow> int" where
  "spec_recommendedHours hours = \<lceil>of_int hours * (4 / 10 :: rat)\<rceil>"



section \<open>Indexed filter and map\<close>

lemma filter_from_all:
  "(\<And>j. i \<le> j \<Longrightarrow> j < i + length xs \<Longrightarrow> p (xs ! (j - i)) j) \<Longrightarrow> filter_from i p xs = xs"
proof (induction xs arbitrary: i)
  case Nil
  show ?case by simp
next
  case (Cons x xs)
  have hd: "p x i" using Cons.prems[of i] by simp
  have "filter_from (Suc i) p xs = xs"
  proof (rule Cons.IH)
    fix j assume "Suc i \<le> j" "j < Suc i + length xs"
    then show "p (xs ! (j - Suc i)) j"
      using Cons.prems[of j] by (simp add: Suc_diff_le)
  qed
  with hd show ?case by simp
qed

lemma filter_from_remove:
  "k < length xs \<Longrightarrow>
   filter_from i (\<lambda>_ j. int j \<noteq> int (i + k)) xs = take k xs @ drop (Suc k) xs"
proof (induction xs arbitrary: i k)
  case Nil
  then show ?case by simp
next
  case (Cons x xs)
  show ?case
  proof (cases k)
    case 0
    have "filter_from (Suc i) (\<lambda>_ j. int j \<noteq> int i) xs = xs"
      by (rule filter_from_all) simp
    with 0 show ?thesis by simp
  next
    case (Suc k')
    with Cons.prems have "k' < length xs" by simp
    from Cons.IH[OF this, of "Suc i"] Suc show ?thesis by simp
  qed
qed

lemma js_filter_out_of_range:
  "index < 0 \<or> int (length xs) \<le> index \<Longrightarrow> js_filter (\<lambda>_ i. int i \<noteq> index) xs = xs"
  unfolding js_filter_def by (rule filter_from_all) auto

lemma js_filter_in_range:
  "k < length xs \<Longrightarrow> js_filter (\<lambda>_ i. int i \<noteq> int k) xs = take k xs @ drop (Suc k) xs"
  unfolding js_filter_def using filter_from_remove[of k xs 0] by simp

lemma length_map_from: "length (map_from i f xs) = length xs"
  by (induction xs arbitrary: i) simp_all

lemma nth_map_from: "k < length xs \<Longrightarrow> map_from i f xs ! k = f (xs ! k) (i + k)"
proof (induction xs arbitrary: i k)
  case Nil
  then show ?case by simp
next
  case (Cons x xs)
  show ?case
  proof (cases k)
    case 0
    then show ?thesis by simp
  next
    case (Suc k')
    with Cons.prems have "k' < length xs" by simp
    from Cons.IH[OF this, of "Suc i"] Suc show ?thesis by simp
  qed
qed

section \<open>The spaced-repetition schedule\<close>

lemma length_schedule: "length (spacedRepetitionSchedule wts now) = length wts"
  by (simp add: spacedRepetitionSchedule_def js_map_def length_map_from)

lemma nth_schedule:
  "i < length wts \<Longrightarrow>
   spacedRepetitionSchedule wts now ! i =
     \<lparr>topic = wts ! i,
      intervals = map (\<lambda>dy. \<lparr>day = dy, date = addDays now (dy + int i)\<rparr>) [1, 3, 7, 14, 30]\<rparr>"
  by (simp add: spacedRepetitionSchedule_def js_map_def nth_map_from)

text \<open>
  Claim C1.  For every list of weak topics and every instant \<open>now\<close>, the schedule has one
  item per weak topic, in the order of the list; the item at (0-based) position \<open>i\<close> has
  exactly five intervals, with the offsets 1, 3, 7, 14, 30 in this order, and the interval
  of offset \<open>day\<close> is dated \<open>now\<close> plus \<open>day + i\<close> days.  The schedule of the empty list is
  empty.
\<close>

theorem schedule_items:
  "length (spacedRepetitionSchedule wts now) = length wts \<and>
   map topic (spacedRepetitionSchedule wts now) = wts \<and>
   (\<forall>i < length wts.
      length (intervals (spacedRepetitionSchedule wts now ! i)) = 5 \<and>
      map day (intervals (spacedRepetitionSchedule wts now ! i)) = [1, 3, 7, 14, 30] \<and>
      (\<forall>iv \<in> set (intervals (spacedRepetitionSchedule wts now ! i)).
         date iv = now + (day iv + int i) * msPerDay)) \<and>
   spacedRepetitionSchedule [] now = []"
proof (intro conjI allI impI)
  show "length (spacedRepetitionSchedule wts now) = length wts"
    by (rule length_schedule)
  show "map topic (spacedRepetitionSchedule wts now) = wts"
    by (rule nth_equalityI) (simp_all add: length_schedule nth_schedule)
  show "spacedRepetitionSchedule [] now = []"
    by (simp add: spacedRepetitionSchedule_def js_map_def)
next
  fix i assume i: "i < length wts"
  show "length (intervals (spacedRepetitionSchedule wts now ! i)) = 5"
    by (simp add: nth_schedule[OF i])
  show "map day (intervals (spacedRepetitionSchedule wts now ! i)) = [1, 3, 7, 14, 30]"
    by (simp add: nth_schedule[OF i])
  show "\<forall>iv \<in> set (intervals (spacedRepetitionSchedule wts now ! i)).
          date iv = now + (day iv + int i) * msPerDay"
    by (simp add: nth_schedule[OF i] addDays_def)
qed

theorem schedule_items_witness:
  "length (spacedRepetitionSchedule [js_str ''Calculus'', js_str ''Optics''] 0) = 2 \<and>
   map topic (spacedRepetitionSchedule [js_str ''Calculus'', js_str ''Optics''] 0)
     = [js_str ''Calculus'', js_str ''Optics''] \<and>
   map day (intervals (spacedRepetitionSchedule [js_str ''Calculus'', js_str ''Optics''] 0 ! 1))
     = [1, 3, 7, 14, 30] \<and>
   map date (intervals (spacedRepetitionSchedule [js_str ''Calculus'', js_str ''Optics''] 0 ! 1))
     = [2 * msPerDay, 4 * msPerDay, 8 * msPerDay, 15 * msPerDay, 31 * msPerDay]"
  using schedule_items[of "[js_str ''Calculus'', js_str ''Optics'']" 0]
  by (simp add: All_less_Suc nth_schedule addDays_def)

section \<open>Day arithmetic\<close>

lemma msPerDay_pos: "0 < msPerDay"
  by (simp add: msPerDay_def)

lemma local_day_addDays: "local_day tz (addDays t k) = local_day tz t + k"
proof -
  have "t + k * msPerDay + tz = (t + tz) + k * msPerDay"
    by simp
  moreover have "((t + tz) + k * msPerDay) div msPerDay = (t + tz) div msPerDay + k"
    using msPerDay_pos by simp
  ultimately show ?thesis
    by (simp only: local_day_def addDays_def)
qed

lemma local_day_of_local_time:
  assumes "0 \<le> tod" "tod < msPerDay"
  shows "local_day tz (utc_midnight y m d + tod - tz) = days_from_civil y m d"
proof -
  have "utc_midnight y m d + tod - tz + tz = tod + days_from_civil y m d * msPerDay"
    by (simp add: utc_midnight_def)
  moreover have "(tod + days_from_civil y m d * msPerDay) div msPerDay = days_from_civil y m d"
    using assms msPerDay_pos by (simp add: div_pos_pos_trivial)
  ultimately show ?thesis
    by (simp only: local_day_def)
qed

lemma day_2024_01_01: "days_from_civil 2024 1 1 = 19723"
  by code_simp

lemma civil_dates_2024:
  "civil_from_days 19724 = (2024, 1, 2)" "civil_from_days 19725 = (2024, 1, 3)"
  "civil_from_days 19726 = (2024, 1, 4)" "civil_from_days 19727 = (2024, 1, 5)"
  "civil_from_days 19728 = (2024, 1, 6)" "civil_from_days 19730 = (2024, 1, 8)"
  "civil_from_days 19731 = (2024, 1, 9)" "civil_from_days 19732 = (2024, 1, 10)"
  "civil_from_days 19737 = (2024, 1, 15)" "civil_from_days 19738 = (2024, 1, 16)"
  "civil_from_days 19739 = (2024, 1, 17)" "civil_from_days 19753 = (2024, 1, 31)"
  "civil_from_days 19754 = (2024, 2, 1)" "civil_from_days 19755 = (2024, 2, 2)"
  by code_simp+

lemma format_ymd_addDays_2024:
  assumes "0 \<le> tod" "tod < msPerDay"
  shows "format_ymd tz (addDays (utc_midnight 2024 1 1 + tod - tz) k) = civil_from_days (19723 + k)"
  by (simp add: format_ymd_def local_day_addDays local_day_of_local_time[OF assms] day_2024_01_01)

section \<open>The worked example of the schedule\<close>

text \<open>
  Claim C2, as stated, gives the item of ``Quantum Mechanics'' (position 1) the dates
  2024-01-04, 01-06, 01-10, 01-17 and 02-02 when \<open>now\<close> is 2024-01-01.  The schedule computed
  from midnight UTC of that day, printed in UTC, is another list.
\<close>

theorem schedule_example_item1_counterexample:
  "map (\<lambda>iv. format_ymd 0 (date iv))
     (intervals (spacedRepetitionSchedule [js_str ''Calculus'', js_str ''Quantum Mechanics'']
                   (utc_midnight 2024 1 1) ! 1))
   \<noteq> [(2024, 1, 4), (2024, 1, 6), (2024, 1, 10), (2024, 1, 17), (2024, 2, 2)]"
proof -
  have "format_ymd 0 (addDays (utc_midnight 2024 1 1 + 0 - 0) 2) = civil_from_days (19723 + 2)"
    by (rule format_ymd_addDays_2024) (simp_all add: msPerDay_def)
  then show ?thesis
    by (simp add: nth_schedule civil_dates_2024)
qed

text \<open>
  Claim C2, amended.  For \<open>now\<close> at any time \<open>tod\<close> of the local day 2024-01-01, the schedule
  of ``Calculus'' and ``Quantum Mechanics'' has these two topics in this order; the dates of
  item 0 print as 2024-01-02, 01-04, 01-08, 01-15, 01-31 (offsets plus index 0) and those of
  item 1 as 2024-01-03, 01-05, 01-09, 01-16, 02-01 (offsets plus index 1).
\<close>

theorem schedule_example:
  assumes "0 \<le> tod" "tod < msPerDay"
  shows "map topic (spacedRepetitionSchedule [js_str ''Calculus'', js_str ''Quantum Mechanics'']
                      (utc_midnight 2024 1 1 + tod - tz))
           = [js_str ''Calculus'', js_str ''Quantum Mechanics''] \<and>
         map (\<lambda>iv. format_ymd tz (date iv))
           (intervals (spacedRepetitionSchedule [js_str ''Calculus'', js_str ''Quantum Mechanics'']
                         (utc_midnight 2024 1 1 + tod - tz) ! 0))
           = [(2024, 1, 2), (2024, 1, 4), (2024, 1, 8), (2024, 1, 15), (2024, 1, 31)] \<and>
         map (\<lambda>iv. format_ymd tz (date iv))
           (intervals (spacedRepetitionSchedule [js_str ''Calculus'', js_str ''Quantum Mechanics'']
                         (utc_midnight 2024 1 1 + tod - tz) ! 1))
           = [(2024, 1, 3), (2024, 1, 5), (2024, 1, 9), (2024, 1, 16), (2024, 2, 1)]"
  by (simp add: nth_schedule format_ymd_addDays_2024[OF assms] civil_dates_2024
      spacedRepetitionSchedule_def js_map_def)

theorem schedule_example_witness:
  "(0::int) \<le> 43200000 \<and> 43200000 < msPerDay \<and>
   map (\<lambda>iv. format_ymd 0 (date iv))
     (intervals (spacedRepetitionSchedule [js_str ''Calculus'', js_str ''Quantum Mechanics'']
                   (utc_midnight 2024 1 1 + 43200000 - 0) ! 1))
     = [(2024, 1, 3), (2024, 1, 5), (2024, 1, 9), (2024, 1, 16), (2024, 2, 1)]"
proof -
  have h: "(0::int) \<le> 43200000" "43200000 < msPerDay"
    by (simp_all add: msPerDay_def)
  from schedule_example[OF h, of 0] h show ?thesis by simp
qed

section \<open>Staggering\<close>

text \<open>
  Claim C6 says that no review date of one topic is a review date of another topic.  The
  source shifts the ladder 1, 3, 7, 14, 30 of the topic at position \<open>i\<close> by \<open>i\<close> days
  (``Stagger start dates to avoid overlap''), and the ladder has two entries that are two
  days apart: with three weak topics, the second review of the first topic and the first
  review of the third topic have the same date, here 2024-01-04.
\<close>

theorem stagger_collision:
  "date (intervals (spacedRepetitionSchedule
           [js_str ''Calculus'', js_str ''Quantum Mechanics'', js_str ''Optics'']
           (utc_midnight 2024 1 1) ! 0) ! 1)
   = date (intervals (spacedRepetitionSchedule
           [js_str ''Calculus'', js_str ''Quantum Mechanics'', js_str ''Optics'']
           (utc_midnight 2024 1 1) ! 2) ! 0) \<and>
   format_ymd 0 (date (intervals (spacedRepetitionSchedule
           [js_str ''Calculus'', js_str ''Quantum Mechanics'', js_str ''Optics'']
           (utc_midnight 2024 1 1) ! 0) ! 1)) = (2024, 1, 4)"
proof -
  have "format_ymd 0 (addDays (utc_midnight 2024 1 1 + 0 - 0) 3) = civil_from_days (19723 + 3)"
    by (rule format_ymd_addDays_2024) (simp_all add: msPerDay_def)
  then show ?thesis
    by (simp add: nth_schedule civil_dates_2024)
qed

section \<open>The weekly mock test\<close>

lemma getDay_range: "0 \<le> getDay tz t \<and> getDay tz t < 7"
  by (simp add: getDay_def)

text \<open>
  Claim C7.  The mock test is dated \<open>now\<close> plus \<open>7 - getDay now\<close> days.  That instant is on
  the day of index 0 of the calendar week after the week of \<open>now\<close>; when \<open>now\<close> is itself
  on the day of index 0 the offset is 7 days; and the date is never \<open>now\<close>.
\<close>

theorem nextMockTestDate_next_week:
  "nextMockTestDate tz now = now + (7 - getDay tz now) * msPerDay \<and>
   getDay tz (nextMockTestDate tz now) = 0 \<and>
   week_of tz (nextMockTestDate tz now) = week_of tz now + 1 \<and>
   (getDay tz now = 0 \<longrightarrow> nextMockTestDate tz now = now + 7 * msPerDay) \<and>
   nextMockTestDate tz now \<noteq> now"
proof -
  define L where "L = local_day tz now"
  have g: "getDay tz now = (L + 4) mod 7"
    by (simp add: getDay_def L_def)
  have ld: "local_day tz (nextMockTestDate tz now) = L + (7 - (L + 4) mod 7)"
    by (simp only: nextMockTestDate_def local_day_addDays g L_def)
  define dq mr where "dq = (L + 4) div 7" and "mr = (L + 4) mod 7"
  have "7 * dq + mr = L + 4"
    unfolding dq_def mr_def by (rule mult_div_mod_eq)
  then have "L + (7 - mr) + 4 = 7 * (dq + 1)"
    by (simp add: algebra_simps)
  then have eq: "L + (7 - (L + 4) mod 7) + 4 = 7 * ((L + 4) div 7 + 1)"
    unfolding dq_def mr_def by assumption
  have "getDay tz (nextMockTestDate tz now) = (L + (7 - (L + 4) mod 7) + 4) mod 7"
    by (simp only: getDay_def ld)
  also have "\<dots> = 0"
    unfolding eq by simp
  finally have day0: "getDay tz (nextMockTestDate tz now) = 0" .
  have "week_of tz (nextMockTestDate tz now) = (L + (7 - (L + 4) mod 7) + 4) div 7"
    by (simp only: week_of_def ld)
  also have "\<dots> = (L + 4) div 7 + 1"
    unfolding eq by simp
  finally have wk: "week_of tz (nextMockTestDate tz now) = week_of tz now + 1"
    by (simp add: week_of_def L_def)
  have "0 < (7 - getDay tz now) * msPerDay"
    using getDay_range[of tz now] msPerDay_pos by simp
  then have ne: "nextMockTestDate tz now \<noteq> now"
    unfolding nextMockTestDate_def addDays_def by linarith
  show ?thesis
    using day0 wk ne by (simp add: nextMockTestDate_def addDays_def)
qed

lemma sunday_2024_01_07: "getDay 0 (utc_midnight 2024 1 7) = 0"
  by code_simp

theorem nextMockTestDate_next_week_witness:
  "getDay 0 (utc_midnight 2024 1 7) = 0 \<and>
   nextMockTestDate 0 (utc_midnight 2024 1 7) = utc_midnight 2024 1 7 + 7 * msPerDay \<and>
   getDay 0 (nextMockTestDate 0 (utc_midnight 2024 1 7)) = 0"
  using nextMockTestDate_next_week[of 0 "utc_midnight 2024 1 7"] sunday_2024_01_07
  by blast

section \<open>The days left\<close>










section \<open>The configuration store\<close>

lemma trim_blank: "trim (js_str ''   '') = []"
  by (simp add: trim_def js_str_def is_white_space_def)

lemma trim_example: "trim (js_str '' Math'') = js_str ''Math''"
  by (simp add: trim_def js_str_def is_white_space_def)

lemma js_str_example: "js_str ''Math'' \<noteq> []" "js_str ''Math'' \<noteq> js_str '' Math''"
  by (simp_all add: js_str_def)

text \<open>
  Claim C8 says that \<open>addSubject(name)\<close> appends \<open>name\<close>.  The handler appends
  \<open>newSubject.trim()\<close>: after adding \<open>'' Math''\<close> the last subject is \<open>''Math''\<close>, without the
  leading space.
\<close>

theorem addSubject_untrimmed_counterexample:
  "subjects (addSubject (js_str '' Math'') (initial_state []))
     \<noteq> subjects (initial_state []) @ [js_str '' Math''] \<and>
   subjects (addSubject (js_str '' Math'') (initial_state []))
     = subjects (initial_state []) @ [js_str ''Math'']"
  by (simp add: addSubject_def handleAddSubject_def trim_example js_str_example)

text \<open>
  Claim C8, amended.  \<open>addSubject(name)\<close> appends the trimmed name to the subjects if the
  trimmed name is not empty, and leaves the subjects as they are otherwise; so the
  subjects change if and only if the trimmed name is not empty, and a name of three spaces
  leaves them unchanged.  \<open>addWeakTopic\<close> does the same on the weak topics.
\<close>

theorem add_appends_trimmed:
  "subjects (addSubject name st) =
     (if trim name = [] then subjects st else subjects st @ [trim name]) \<and>
   (subjects (addSubject name st) \<noteq> subjects st) = (trim name \<noteq> []) \<and>
   subjects (addSubject (js_str ''   '') st) = subjects st \<and>
   weakTopics (addWeakTopic name st) =
     (if trim name = [] then weakTopics st else weakTopics st @ [trim name]) \<and>
   (weakTopics (addWeakTopic name st) \<noteq> weakTopics st) = (trim name \<noteq> []) \<and>
   weakTopics (addWeakTopic (js_str ''   '') st) = weakTopics st"
  by (simp add: addSubject_def handleAddSubject_def addWeakTopic_def handleAddWeakTopic_def
      trim_blank)

theorem add_appends_trimmed_witness:
  "trim (js_str '' Math'') \<noteq> [] \<and>
   subjects (addSubject (js_str '' Math'') (initial_state [])) =
     [js_str ''Mathematics'', js_str ''Physics'', js_str ''Math''] \<and>
   trim (js_str ''   '') = [] \<and>
   subjects (addSubject (js_str ''   '') (initial_state [])) =
     [js_str ''Mathematics'', js_str ''Physics'']"
proof -
  have ne: "trim (js_str '' Math'') \<noteq> []"
    by (simp add: trim_example js_str_example)
  from add_appends_trimmed[of "js_str '' Math''" "initial_state []"] ne
  have "subjects (addSubject (js_str '' Math'') (initial_state [])) =
          subjects (initial_state []) @ [trim (js_str '' Math'')]"
    by simp
  moreover from add_appends_trimmed[of "js_str ''   ''" "initial_state []"]
  have "subjects (addSubject (js_str ''   '') (initial_state [])) = subjects (initial_state [])"
    by blast
  ultimately show ?thesis
    using ne by (simp add: trim_example trim_blank initial_state_def)
qed

text \<open>
  Claim C9.  Removing at an index that is not a position of the list (at or beyond its
  length, or negative) returns the state unchanged; the handlers have no failing branch.
  Removing at a position \<open>k\<close> of the list removes exactly the element at \<open>k\<close>: the elements
  before and after it stay, in order, so one of two equal entries can be removed.
\<close>

theorem remove_by_index:
  "(index < 0 \<or> int (length (subjects st)) \<le> index \<longrightarrow> handleRemoveSubject index st = st) \<and>
   (index < 0 \<or> int (length (weakTopics st)) \<le> index \<longrightarrow> handleRemoveWeakTopic index st = st) \<and>
   (\<forall>k < length (subjects st).
      handleRemoveSubject (int k) st =
        st\<lparr>subjects := take k (subjects st) @ drop (Suc k) (subjects st)\<rparr>) \<and>
   (\<forall>k < length (weakTopics st).
      handleRemoveWeakTopic (int k) st =
        st\<lparr>weakTopics := take k (weakTopics st) @ drop (Suc k) (weakTopics st)\<rparr>)"
proof (intro conjI allI impI)
  assume "index < 0 \<or> int (length (subjects st)) \<le> index"
  then show "handleRemoveSubject index st = st"
    by (simp add: handleRemoveSubject_def js_filter_out_of_range)
next
  assume "index < 0 \<or> int (length (weakTopics st)) \<le> index"
  then show "handleRemoveWeakTopic index st = st"
    by (simp add: handleRemoveWeakTopic_def js_filter_out_of_range)
next
  fix k assume "k < length (subjects st)"
  then show "handleRemoveSubject (int k) st =
      st\<lparr>subjects := take k (subjects st) @ drop (Suc k) (subjects st)\<rparr>"
    by (simp only: handleRemoveSubject_def js_filter_in_range)
next
  fix k assume "k < length (weakTopics st)"
  then show "handleRemoveWeakTopic (int k) st =
      st\<lparr>weakTopics := take k (weakTopics st) @ drop (Suc k) (weakTopics st)\<rparr>"
    by (simp only: handleRemoveWeakTopic_def js_filter_in_range)
qed

theorem remove_by_index_witness:
  "handleRemoveSubject 2 (initial_state []) = initial_state [] \<and>
   handleRemoveWeakTopic 7 (initial_state []) = initial_state [] \<and>
   subjects (handleRemoveSubject (int 0) (initial_state [])) = [js_str ''Physics''] \<and>
   weakTopics (handleRemoveWeakTopic (int 1) (initial_state [])) = [js_str ''Calculus'']"
proof -
  have len: "length (subjects (initial_state [])) = 2" "length (weakTopics (initial_state [])) = 2"
    by (simp_all add: initial_state_def)
  note t = remove_by_index[where st = "initial_state []"]
  from t[of 2] len have a: "handleRemoveSubject 2 (initial_state []) = initial_state []"
    by simp
  from t[of 7] len have b: "handleRemoveWeakTopic 7 (initial_state []) = initial_state []"
    by simp
  have k0: "0 < length (subjects (initial_state []))" and k1: "1 < length (weakTopics (initial_state []))"
    using len by simp_all
  from t[of 0] k0 have "handleRemoveSubject (int 0) (initial_state []) =
      (initial_state [])\<lparr>subjects := take 0 (subjects (initial_state []))
                                         @ drop (Suc 0) (subjects (initial_state []))\<rparr>"
    by blast
  then have c: "subjects (handleRemoveSubject (int 0) (initial_state [])) = [js_str ''Physics'']"
    by (simp add: initial_state_def)
  from t[of 0] k1 have "handleRemoveWeakTopic (int 1) (initial_state []) =
      (initial_state [])\<lparr>weakTopics := take 1 (weakTopics (initial_state []))
                                          @ drop (Suc 1) (weakTopics (initial_state []))\<rparr>"
    by blast
  then have d: "weakTopics (handleRemoveWeakTopic (int 1) (initial_state [])) = [js_str ''Calculus'']"
    by (simp add: initial_state_def)
  from a b c d show ?thesis by blast
qed

text \<open>
  Claim C10.  Adding or removing a subject leaves the exam date, the weak topics and the
  daily hours as they are; adding or removing a weak topic leaves the exam date, the
  subjects and the daily hours as they are.  Hence the schedule and the priority topic,
  which are computed from the weak topics, are the same before and after an operation on
  the subjects.
\<close>

theorem mutations_frame:
  "examDate (addSubject name st) = examDate st \<and>
   weakTopics (addSubject name st) = weakTopics st \<and>
   dailyHours (addSubject name st) = dailyHours st \<and>
   examDate (handleRemoveSubject index st) = examDate st \<and>
   weakTopics (handleRemoveSubject index st) = weakTopics st \<and>
   dailyHours (handleRemoveSubject index st) = dailyHours st \<and>
   examDate (addWeakTopic name st) = examDate st \<and>
   subjects (addWeakTopic name st) = subjects st \<and>
   dailyHours (addWeakTopic name st) = dailyHours st \<and>
   examDate (handleRemoveWeakTopic index st) = examDate st \<and>
   subjects (handleRemoveWeakTopic index st) = subjects st \<and>
   dailyHours (handleRemoveWeakTopic index st) = dailyHours st \<and>
   spacedRepetitionSchedule (weakTopics (addSubject name st)) now
     = spacedRepetitionSchedule (weakTopics st) now \<and>
   spacedRepetitionSchedule (weakTopics (handleRemoveSubject index st)) now
     = spacedRepetitionSchedule (weakTopics st) now \<and>
   focusTopic (weakTopics (addSubject name st)) = focusTopic (weakTopics st) \<and>
   focusTopic (weakTopics (handleRemoveSubject index st)) = focusTopic (weakTopics st)"
  by (simp add: addSubject_def handleAddSubject_def addWeakTopic_def handleAddWeakTopic_def
      handleRemoveSubject_def handleRemoveWeakTopic_def)

section \<open>Rounding to the nearest integer\<close>

lemma round_even_near:
  assumes "\<bar>x - of_int n\<bar> < 1 / 2"
  shows "round_even x = n"
proof (cases "of_int n \<le> x")
  case True
  with assms have "\<lfloor>x\<rfloor> = n"
    by (intro floor_unique) linarith+
  with assms True show ?thesis
    by (simp add: round_even_def Let_def)
next
  case False
  have a: "of_int n - 1 / 2 < x" "x < of_int n"
    using assms False by linarith+
  have fl: "\<lfloor>x\<rfloor> = n - 1"
  proof (rule floor_unique)
    show "of_int (n - 1) \<le> x" using a by simp
    show "x < of_int (n - 1) + 1" using a by simp
  qed
  have "1 / 2 < x - of_int (n - 1)"
    using a by simp
  with fl show ?thesis
    by (simp add: round_even_def Let_def)
qed

lemma round_even_of_int: "round_even (of_int n) = n"
  by (rule round_even_near) simp

lemma round_even_bounds: "\<bar>of_int (round_even x) - x\<bar> \<le> 1 / 2"
proof -
  have "of_int \<lfloor>x\<rfloor> \<le> x" "x < of_int \<lfloor>x\<rfloor> + 1"
    by linarith+
  then show ?thesis
    by (simp add: round_even_def Let_def)
qed

lemma round_even_floor: "\<lfloor>x\<rfloor> \<le> round_even x" "round_even x \<le> \<lfloor>x\<rfloor> + 1"
  by (simp_all add: round_even_def Let_def)

lemma round_even_mono:
  assumes "x \<le> y"
  shows "round_even x \<le> round_even y"
proof (cases "\<lfloor>x\<rfloor> = \<lfloor>y\<rfloor>")
  case True
  with assms show ?thesis
    by (simp add: round_even_def Let_def)
next
  case False
  with assms have "\<lfloor>x\<rfloor> + 1 \<le> \<lfloor>y\<rfloor>"
    using floor_mono[of x y] by linarith
  with round_even_floor(2)[of x] round_even_floor(1)[of y] show ?thesis
    by linarith
qed

section \<open>The binary exponent\<close>

lemma two_powi_nat: "0 \<le> k \<Longrightarrow> (2::rat) powi k = of_int (2 ^ nat k)"
  by (simp add: power_int_nonneg_exp)

lemma two_powi_less_iff: "(2::rat) powi a < 2 powi b \<longleftrightarrow> a < b"
proof
  assume "(2::rat) powi a < 2 powi b"
  show "a < b"
  proof (rule ccontr)
    assume "\<not> a < b"
    then have "(2::rat) powi b \<le> 2 powi a"
      by (intro power_int_increasing) simp_all
    with \<open>(2::rat) powi a < 2 powi b\<close> show False by simp
  qed
next
  assume "a < b"
  then show "(2::rat) powi a < 2 powi b"
    by (intro power_int_strict_increasing) simp_all
qed

lemma two_powi_le_iff: "(2::rat) powi a \<le> 2 powi b \<longleftrightarrow> a \<le> b"
  using two_powi_less_iff[of b a] by (simp add: not_less[symmetric])

lemma two_powi_Suc: "(2::rat) powi (k + 1) = 2 * 2 powi k"
  by (simp add: power_int_add)

lemma ilog2_bounds:
  assumes "0 < x"
  shows "2 powi ilog2 x \<le> x" and "x < 2 powi (ilog2 x + 1)"
proof -
  have "2 powi ilog2 x \<le> x \<and> x < 2 powi (ilog2 x + 1)"
  proof (cases "1 \<le> x")
    case True
    define n where "n = \<lfloor>x\<rfloor>"
    have "x < of_int \<lfloor>x\<rfloor> + 1"
      by linarith
    then have n: "1 \<le> n" "of_int n \<le> x" "x < of_int (n + 1)"
      using True by (simp_all add: n_def le_floor_iff)
    then have b: "1 \<le> bitlen n"
      using bitlen_bounds[of n] by (simp add: bitlen_alt_def)
    have "2 ^ nat (bitlen n - 1) \<le> n" "n + 1 \<le> 2 ^ nat (bitlen n)"
      using bitlen_bounds[of n] n(1) by simp_all
    then have "(of_int (2 ^ nat (bitlen n - 1)) :: rat) \<le> of_int n"
      "(of_int (n + 1) :: rat) \<le> of_int (2 ^ nat (bitlen n))"
      by (simp_all only: of_int_le_iff)
    then have "(2::rat) powi (bitlen n - 1) \<le> of_int n" "(of_int (n + 1) :: rat) \<le> 2 powi (bitlen n)"
      using b by (simp_all add: two_powi_nat)
    with n True show ?thesis
      by (simp add: ilog2_def n_def[symmetric])
  next
    case False
    define y where "y = 1 / x"
    define c where "c = \<lceil>y\<rceil> - 1"
    have y: "1 < y" "0 < y" "x = 1 / y"
      using False assms by (simp_all add: y_def)
    have "of_int \<lceil>y\<rceil> - 1 < y" "y \<le> of_int \<lceil>y\<rceil>"
      by linarith+
    then have c: "1 \<le> c" "of_int c < y" "y \<le> of_int (c + 1)"
      using y(1) by (simp_all add: c_def less_ceiling_iff)
    then have b: "1 \<le> bitlen c"
      using bitlen_bounds[of c] by (simp add: bitlen_alt_def)
    have "2 ^ nat (bitlen c - 1) \<le> c" "c + 1 \<le> 2 ^ nat (bitlen c)"
      using bitlen_bounds[of c] c(1) by simp_all
    then have "(of_int (2 ^ nat (bitlen c - 1)) :: rat) \<le> of_int c"
      "(of_int (c + 1) :: rat) \<le> of_int (2 ^ nat (bitlen c))"
      by (simp_all only: of_int_le_iff)
    then have "(2::rat) powi (bitlen c - 1) \<le> of_int c" "(of_int (c + 1) :: rat) \<le> 2 powi (bitlen c)"
      using b by (simp_all add: two_powi_nat)
    with c have lo: "(2::rat) powi (bitlen c - 1) < y" and hi: "y \<le> 2 powi (bitlen c)"
      by linarith+
    have "1 / 2 powi bitlen c \<le> 1 / y"
      using hi y(2) by (intro divide_left_mono) simp_all
    then have "2 powi (- bitlen c) \<le> x"
      using y(3) by (simp only: power_int_minus_divide)
    moreover have "x < 2 powi (- bitlen c + 1)"
    proof -
      have "(2::rat) powi (- bitlen c + 1) = 1 / 2 powi (bitlen c - 1)"
        using power_int_minus_divide[of "2::rat" "bitlen c - 1"] by simp
      moreover have "1 / y < 1 / 2 powi (bitlen c - 1)"
        using lo y(2) by (intro divide_strict_left_mono) simp_all
      ultimately show ?thesis
        using y(3) by simp
    qed
    ultimately show ?thesis
      using False by (simp add: ilog2_def y_def[symmetric] c_def[symmetric])
  qed
  then show "2 powi ilog2 x \<le> x" and "x < 2 powi (ilog2 x + 1)"
    by simp_all
qed

lemma ilog2_less: "0 < x \<Longrightarrow> x < 2 powi k \<Longrightarrow> ilog2 x < k"
  using ilog2_bounds(1)[of x] two_powi_less_iff[of "ilog2 x" k] by linarith

lemma ilog2_ge: "2 powi k \<le> x \<Longrightarrow> k \<le> ilog2 x"
proof -
  assume a: "2 powi k \<le> x"
  have "(0::rat) < 2 powi k" by simp
  with a have "0 < x" by linarith
  from ilog2_bounds(2)[OF this] a have "(2::rat) powi k < 2 powi (ilog2 x + 1)"
    by linarith
  then show ?thesis
    by (simp add: two_powi_less_iff)
qed

lemma ilog2_eq: "2 powi e \<le> x \<Longrightarrow> x < 2 powi (e + 1) \<Longrightarrow> ilog2 x = e"
proof -
  assume a: "2 powi e \<le> x" "x < 2 powi (e + 1)"
  have "(0::rat) < 2 powi e" by simp
  with a have "0 < x" by linarith
  from ilog2_less[OF this a(2)] ilog2_ge[OF a(1)] show ?thesis by simp
qed

section \<open>Rounding to binary64\<close>

lemma fl_0: "fl 0 = 0"
  by (simp add: fl_def)

lemma fl_binade:
  assumes "2 powi e \<le> \<bar>x\<bar>" "\<bar>x\<bar> < 2 powi (e + 1)"
  shows "fl x = of_int (round_even (x / 2 powi (e - 52))) * 2 powi (e - 52)"
proof -
  have "(0::rat) < 2 powi e" by simp
  with assms(1) have "0 < \<bar>x\<bar>" by linarith
  then have "x \<noteq> 0" by simp
  moreover have "ilog2 \<bar>x\<bar> = e"
    using assms by (rule ilog2_eq)
  ultimately show ?thesis
    by (simp add: fl_def Let_def)
qed

lemma two_powi_half: "(2::rat) powi (e - 52) / 2 = 2 powi (e - 53)"
proof -
  have "(2::rat) powi (e - 52) = 2 powi ((e - 53) + 1)" by simp
  also have "\<dots> = 2 * 2 powi (e - 53)" by (rule two_powi_Suc)
  finally show ?thesis by simp
qed

lemma fl_error_ulp:
  assumes "x \<noteq> 0"
  shows "\<bar>fl x - x\<bar> \<le> 2 powi (ilog2 \<bar>x\<bar> - 53)"
proof -
  define u :: rat where "u = 2 powi (ilog2 \<bar>x\<bar> - 52)"
  have u: "0 < u" by (simp add: u_def)
  have "fl x - x = u * (of_int (round_even (x / u)) - x / u)"
    using assms u by (simp add: fl_def Let_def u_def[symmetric] algebra_simps)
  then have "\<bar>fl x - x\<bar> = u * \<bar>of_int (round_even (x / u)) - x / u\<bar>"
    using u by (simp add: abs_mult)
  also have "\<dots> \<le> u * (1 / 2)"
    using u round_even_bounds[of "x / u"] by (intro mult_left_mono) simp_all
  also have "\<dots> = 2 powi (ilog2 \<bar>x\<bar> - 53)"
    using two_powi_half[of "ilog2 \<bar>x\<bar>"] by (simp add: u_def)
  finally show ?thesis .
qed

lemma fl_error:
  assumes "\<bar>x\<bar> < 2 powi k"
  shows "\<bar>fl x - x\<bar> \<le> 2 powi (k - 53)"
proof (cases "x = 0")
  case True
  then show ?thesis by (simp add: fl_0)
next
  case False
  then have "ilog2 \<bar>x\<bar> < k"
    using assms by (intro ilog2_less) simp_all
  then have "(2::rat) powi (ilog2 \<bar>x\<bar> - 53) \<le> 2 powi (k - 53)"
    by (simp add: two_powi_le_iff)
  with fl_error_ulp[OF False] show ?thesis by linarith
qed

lemma fl_exact:
  assumes "\<bar>m\<bar> < 2 ^ 53"
  shows "fl (of_int m * 2 powi j) = of_int m * 2 powi j"
proof (cases "m = 0")
  case True
  then show ?thesis by (simp add: fl_0)
next
  case False
  define x :: rat where "x = of_int m * 2 powi j"
  define e where "e = ilog2 \<bar>x\<bar>"
  have x0: "x \<noteq> 0" using False by (simp add: x_def)
  have "\<bar>x\<bar> = of_int \<bar>m\<bar> * 2 powi j"
    by (simp add: x_def abs_mult)
  also have "\<dots> < of_int (2 ^ 53) * 2 powi j"
    using assms by (intro mult_strict_right_mono) (simp_all only: of_int_less_iff zero_less_power_int zero_less_numeral)
  also have "\<dots> = 2 powi (j + 53)"
    by (simp add: power_int_add)
  finally have "e < j + 53"
    unfolding e_def using x0 by (intro ilog2_less) simp_all
  then have k: "0 \<le> j - e + 52" by simp
  have "x / 2 powi (e - 52) = of_int m * (2 powi j / 2 powi (e - 52))"
    by (simp add: x_def)
  also have "2 powi j / 2 powi (e - 52) = (2::rat) powi (j - e + 52)"
    using power_int_diff[of "2::rat" j "e - 52"] by (simp add: algebra_simps)
  also have "\<dots> = of_int (2 ^ nat (j - e + 52))"
    using k by (rule two_powi_nat)
  finally have q: "x / 2 powi (e - 52) = of_int (m * 2 ^ nat (j - e + 52))"
    by simp
  have "fl x = of_int (round_even (x / 2 powi (e - 52))) * 2 powi (e - 52)"
    using x0 by (simp add: fl_def e_def Let_def)
  also have "\<dots> = x / 2 powi (e - 52) * 2 powi (e - 52)"
    unfolding q round_even_of_int by (rule refl)
  also have "\<dots> = x"
    by simp
  finally show ?thesis
    by (simp add: x_def)
qed

lemma fl_of_int: "\<bar>m\<bar> < 2 ^ 53 \<Longrightarrow> fl (of_int m) = of_int m"
  using fl_exact[of m 0] by simp

lemma fl_near:
  assumes "2 powi e \<le> \<bar>x\<bar>" "\<bar>x\<bar> < 2 powi (e + 1)"
    and "\<bar>x - of_int m * 2 powi (e - 52)\<bar> < 2 powi (e - 53)"
  shows "fl x = of_int m * 2 powi (e - 52)"
proof -
  define u :: rat where "u = 2 powi (e - 52)"
  have u: "0 < u" by (simp add: u_def)
  have "x / u - of_int m = (x - of_int m * u) / u"
    using u by (simp add: field_simps)
  then have "\<bar>x / u - of_int m\<bar> = \<bar>x - of_int m * u\<bar> / u"
    using u by (simp add: abs_divide)
  also have "\<dots> < (u / 2) / u"
    using assms(3) u two_powi_half[of e] by (intro divide_strict_right_mono) (simp_all add: u_def)
  also have "\<dots> = 1 / 2"
    using u by simp
  finally have "round_even (x / u) = m"
    by (rule round_even_near)
  with fl_binade[OF assms(1,2)] show ?thesis
    by (simp add: u_def)
qed

lemma fl_scaled:
  "x \<noteq> 0 \<Longrightarrow> fl x = of_int (round_even (x / 2 powi (ilog2 \<bar>x\<bar> - 52))) * 2 powi (ilog2 \<bar>x\<bar> - 52)"
  by (simp add: fl_def Let_def)

lemma fl_nonneg:
  assumes "0 \<le> x"
  shows "0 \<le> fl x"
proof (cases "x = 0")
  case True
  then show ?thesis by (simp add: fl_0)
next
  case False
  have "round_even 0 \<le> round_even (x / 2 powi (ilog2 \<bar>x\<bar> - 52))"
    using assms by (intro round_even_mono) simp
  then have "0 \<le> round_even (x / 2 powi (ilog2 \<bar>x\<bar> - 52))"
    using round_even_of_int[of 0] by simp
  then show ?thesis
    by (simp add: fl_scaled[OF False])
qed

lemma fl_nonpos:
  assumes "x \<le> 0"
  shows "fl x \<le> 0"
proof (cases "x = 0")
  case True
  then show ?thesis by (simp add: fl_0)
next
  case False
  have "round_even (x / 2 powi (ilog2 \<bar>x\<bar> - 52)) \<le> round_even 0"
    using assms by (intro round_even_mono) (simp add: divide_nonpos_pos)
  then have "round_even (x / 2 powi (ilog2 \<bar>x\<bar> - 52)) \<le> 0"
    using round_even_of_int[of 0] by simp
  then show ?thesis
    by (simp add: fl_scaled[OF False] mult_le_0_iff)
qed

lemma two_powi_52: "of_int (2 ^ 52) * (2::rat) powi (e - 52) = 2 powi e"
  using power_int_add[of "2::rat" 52 "e - 52"] by simp

lemma two_powi_53: "of_int (2 ^ 53) * (2::rat) powi (e - 52) = 2 powi (e + 1)"
  using power_int_add[of "2::rat" 53 "e - 52"] by (simp add: add.commute)

lemma fl_binade_pos:
  assumes "2 powi e \<le> x" "x < 2 powi (e + 1)"
  shows "2 powi e \<le> fl x" and "fl x \<le> 2 powi (e + 1)"
proof -
  define u :: rat where "u = 2 powi (e - 52)"
  have u: "0 < u" by (simp add: u_def)
  have "(0::rat) < 2 powi e" by simp
  with assms have x: "0 < x" "\<bar>x\<bar> = x" by linarith+
  have f: "fl x = of_int (round_even (x / u)) * u"
    using fl_binade[of e x] assms x by (simp add: u_def)
  have "of_int (2 ^ 52) * u \<le> x" "x \<le> of_int (2 ^ 53) * u"
    using assms two_powi_52[of e] two_powi_53[of e] by (simp_all add: u_def)
  then have "of_int (2 ^ 52) \<le> x / u" "x / u \<le> of_int (2 ^ 53)"
    using u by (simp_all add: field_simps)
  then have "round_even (of_int (2 ^ 52)) \<le> round_even (x / u)"
    "round_even (x / u) \<le> round_even (of_int (2 ^ 53))"
    by (auto intro: round_even_mono)
  then have "2 ^ 52 \<le> round_even (x / u)" "round_even (x / u) \<le> 2 ^ 53"
    by (simp_all only: round_even_of_int)
  then have "(of_int (2 ^ 52) :: rat) \<le> of_int (round_even (x / u))"
    "(of_int (round_even (x / u)) :: rat) \<le> of_int (2 ^ 53)"
    by (simp_all only: of_int_le_iff)
  then have "of_int (2 ^ 52) * u \<le> fl x" "fl x \<le> of_int (2 ^ 53) * u"
    unfolding f using u by (intro mult_right_mono; simp)+
  then show "2 powi e \<le> fl x" and "fl x \<le> 2 powi (e + 1)"
    using two_powi_52[of e] two_powi_53[of e] by (simp_all add: u_def)
qed

lemma fl_binade_neg:
  assumes "2 powi e \<le> - x" "- x < 2 powi (e + 1)"
  shows "- (2 powi (e + 1)) \<le> fl x" and "fl x \<le> - (2 powi e)"
proof -
  define u :: rat where "u = 2 powi (e - 52)"
  have u: "0 < u" by (simp add: u_def)
  have "(0::rat) < 2 powi e" by simp
  with assms have x: "x < 0" "\<bar>x\<bar> = - x" by linarith+
  have f: "fl x = of_int (round_even (x / u)) * u"
    using fl_binade[of e x] assms x by (simp add: u_def)
  have "x \<le> of_int (- (2 ^ 52)) * u" "of_int (- (2 ^ 53)) * u \<le> x"
    using assms two_powi_52[of e] two_powi_53[of e] by (simp_all add: u_def)
  then have "x / u \<le> of_int (- (2 ^ 52))" "of_int (- (2 ^ 53)) \<le> x / u"
    using u by (simp_all add: field_simps)
  then have "round_even (x / u) \<le> round_even (of_int (- (2 ^ 52)))"
    "round_even (of_int (- (2 ^ 53))) \<le> round_even (x / u)"
    by (auto intro: round_even_mono)
  then have "round_even (x / u) \<le> - (2 ^ 52)" "- (2 ^ 53) \<le> round_even (x / u)"
    by (simp_all only: round_even_of_int)
  then have "(of_int (round_even (x / u)) :: rat) \<le> of_int (- (2 ^ 52))"
    "(of_int (- (2 ^ 53)) :: rat) \<le> of_int (round_even (x / u))"
    by (simp_all only: of_int_le_iff)
  then have "fl x \<le> of_int (- (2 ^ 52)) * u" "of_int (- (2 ^ 53)) * u \<le> fl x"
    unfolding f using u by (intro mult_right_mono; simp)+
  then show "- (2 powi (e + 1)) \<le> fl x" and "fl x \<le> - (2 powi e)"
    using two_powi_52[of e] two_powi_53[of e] by (simp_all add: u_def)
qed

lemma fl_mono_same_binade:
  assumes "x \<noteq> 0" "y \<noteq> 0" "x \<le> y" "ilog2 \<bar>x\<bar> = ilog2 \<bar>y\<bar>"
  shows "fl x \<le> fl y"
proof -
  define u :: rat where "u = 2 powi (ilog2 \<bar>y\<bar> - 52)"
  have u: "0 < u" by (simp add: u_def)
  have "x / u \<le> y / u"
    using assms(3) u by (simp add: divide_right_mono)
  then have "(of_int (round_even (x / u)) :: rat) \<le> of_int (round_even (y / u))"
    by (simp only: of_int_le_iff round_even_mono)
  then have "of_int (round_even (x / u)) * u \<le> of_int (round_even (y / u)) * u"
    using u by (intro mult_right_mono) simp_all
  then show ?thesis
    using assms by (simp add: fl_scaled u_def)
qed

lemma fl_mono:
  assumes "x \<le> y"
  shows "fl x \<le> fl y"
proof -
  consider "x \<le> 0" "0 \<le> y" | "0 < x" | "y < 0"
    by linarith
  then show ?thesis
  proof cases
    case 1
    with fl_nonpos[of x] fl_nonneg[of y] show ?thesis by linarith
  next
    case 2
    with assms have y: "0 < y" by linarith
    have le: "ilog2 x \<le> ilog2 y"
      using ilog2_bounds(1)[OF 2] assms by (intro ilog2_ge) linarith
    show ?thesis
    proof (cases "ilog2 x = ilog2 y")
      case True
      with 2 y assms show ?thesis
        by (intro fl_mono_same_binade) simp_all
    next
      case False
      with le have "(2::rat) powi (ilog2 x + 1) \<le> 2 powi ilog2 y"
        by (simp add: two_powi_le_iff)
      with fl_binade_pos(2)[OF ilog2_bounds[OF 2]] fl_binade_pos(1)[OF ilog2_bounds[OF y]]
      show ?thesis by linarith
    qed
  next
    case 3
    with assms have x: "x < 0" by linarith
    have nx: "0 < - x" and ny: "0 < - y" using x 3 by simp_all
    have le: "ilog2 (- y) \<le> ilog2 (- x)"
      using ilog2_bounds(1)[OF ny] assms by (intro ilog2_ge) linarith
    show ?thesis
    proof (cases "ilog2 (- x) = ilog2 (- y)")
      case True
      with 3 x assms show ?thesis
        by (intro fl_mono_same_binade) simp_all
    next
      case False
      with le have "(2::rat) powi (ilog2 (- y) + 1) \<le> 2 powi ilog2 (- x)"
        by (simp add: two_powi_le_iff)
      with fl_binade_neg(2)[OF ilog2_bounds[OF nx]] fl_binade_neg(1)[OF ilog2_bounds[OF ny]]
      show ?thesis by linarith
    qed
  qed
qed

section \<open>The readiness score\<close>

lemma literal_0_4: "fl (2 / 5) = 3602879701896397 / 2 ^ 53"
  using fl_near[of "-2" "2 / 5" 7205759403792794] by simp

text \<open>
  The time bonus of the days that give a score ending in one half in exact arithmetic:
  the quotient by 60 is rounded, then the product with 50; the result is the exact bonus,
  but for 33 days, where it is one unit in the last place above it.
\<close>

lemma timeBonus_step:
  assumes "fl (of_int d / 60) = p" and "fl (p * 50) = q"
  shows "fl (fl (of_int d / 60) * 50) = q"
  using assms by simp

lemma timeBonus_ties:
  "fl (fl (of_int 3 / 60) * 50) = 5 / 2"
  "fl (fl (of_int 9 / 60) * 50) = 15 / 2"
  "fl (fl (of_int 15 / 60) * 50) = 25 / 2"
  "fl (fl (of_int 21 / 60) * 50) = 35 / 2"
  "fl (fl (of_int 27 / 60) * 50) = 45 / 2"
  "fl (fl (of_int 33 / 60) * 50) = 7740561859543041 / 2 ^ 48"
  "fl (fl (of_int 39 / 60) * 50) = 65 / 2"
  "fl (fl (of_int 45 / 60) * 50) = 75 / 2"
  "fl (fl (of_int 51 / 60) * 50) = 85 / 2"
  "fl (fl (of_int 57 / 60) * 50) = 95 / 2"
proof -
  show "fl (fl (of_int 3 / 60) * 50) = 5 / 2"
  proof (rule timeBonus_step)
    show "fl (of_int 3 / 60) = 3602879701896397 / 2 ^ 56"
      using fl_near[of "-5" "of_int 3 / 60" 7205759403792794] by simp
    show "fl (3602879701896397 / 2 ^ 56 * 50) = 5 / 2"
      using fl_near[of "1" "3602879701896397 / 2 ^ 56 * 50" 5629499534213120] by simp
  qed
  show "fl (fl (of_int 9 / 60) * 50) = 15 / 2"
  proof (rule timeBonus_step)
    show "fl (of_int 9 / 60) = 5404319552844595 / 2 ^ 55"
      using fl_near[of "-3" "of_int 9 / 60" 5404319552844595] by simp
    show "fl (5404319552844595 / 2 ^ 55 * 50) = 15 / 2"
      using fl_near[of "2" "5404319552844595 / 2 ^ 55 * 50" 8444249301319680] by simp
  qed
  show "fl (fl (of_int 15 / 60) * 50) = 25 / 2"
  proof (rule timeBonus_step)
    show "fl (of_int 15 / 60) = 1 / 2 ^ 2"
      using fl_near[of "-2" "of_int 15 / 60" 4503599627370496] by simp
    show "fl (1 / 2 ^ 2 * 50) = 25 / 2"
      using fl_near[of "3" "1 / 2 ^ 2 * 50" 7036874417766400] by simp
  qed
  show "fl (fl (of_int 21 / 60) * 50) = 35 / 2"
  proof (rule timeBonus_step)
    show "fl (of_int 21 / 60) = 3152519739159347 / 2 ^ 53"
      using fl_near[of "-2" "of_int 21 / 60" 6305039478318694] by simp
    show "fl (3152519739159347 / 2 ^ 53 * 50) = 35 / 2"
      using fl_near[of "4" "3152519739159347 / 2 ^ 53 * 50" 4925812092436480] by simp
  qed
  show "fl (fl (of_int 27 / 60) * 50) = 45 / 2"
  proof (rule timeBonus_step)
    show "fl (of_int 27 / 60) = 8106479329266893 / 2 ^ 54"
      using fl_near[of "-2" "of_int 27 / 60" 8106479329266893] by simp
    show "fl (8106479329266893 / 2 ^ 54 * 50) = 45 / 2"
      using fl_near[of "4" "8106479329266893 / 2 ^ 54 * 50" 6333186975989760] by simp
  qed
  show "fl (fl (of_int 33 / 60) * 50) = 7740561859543041 / 2 ^ 48"
  proof (rule timeBonus_step)
    show "fl (of_int 33 / 60) = 2476979795053773 / 2 ^ 52"
      using fl_near[of "-1" "of_int 33 / 60" 4953959590107546] by simp
    show "fl (2476979795053773 / 2 ^ 52 * 50) = 7740561859543041 / 2 ^ 48"
      using fl_near[of "4" "2476979795053773 / 2 ^ 52 * 50" 7740561859543041] by simp
  qed
  show "fl (fl (of_int 39 / 60) * 50) = 65 / 2"
  proof (rule timeBonus_step)
    show "fl (of_int 39 / 60) = 5854679515581645 / 2 ^ 53"
      using fl_near[of "-1" "of_int 39 / 60" 5854679515581645] by simp
    show "fl (5854679515581645 / 2 ^ 53 * 50) = 65 / 2"
      using fl_near[of "5" "5854679515581645 / 2 ^ 53 * 50" 4573968371548160] by simp
  qed
  show "fl (fl (of_int 45 / 60) * 50) = 75 / 2"
  proof (rule timeBonus_step)
    show "fl (of_int 45 / 60) = 3 / 2 ^ 2"
      using fl_near[of "-1" "of_int 45 / 60" 6755399441055744] by simp
    show "fl (3 / 2 ^ 2 * 50) = 75 / 2"
      using fl_near[of "5" "3 / 2 ^ 2 * 50" 5277655813324800] by simp
  qed
  show "fl (fl (of_int 51 / 60) * 50) = 85 / 2"
  proof (rule timeBonus_step)
    show "fl (of_int 51 / 60) = 7656119366529843 / 2 ^ 53"
      using fl_near[of "-1" "of_int 51 / 60" 7656119366529843] by simp
    show "fl (7656119366529843 / 2 ^ 53 * 50) = 85 / 2"
      using fl_near[of "5" "7656119366529843 / 2 ^ 53 * 50" 5981343255101440] by simp
  qed
  show "fl (fl (of_int 57 / 60) * 50) = 95 / 2"
  proof (rule timeBonus_step)
    show "fl (of_int 57 / 60) = 4278419646001971 / 2 ^ 52"
      using fl_near[of "-1" "of_int 57 / 60" 8556839292003942] by simp
    show "fl (4278419646001971 / 2 ^ 52 * 50) = 95 / 2"
      using fl_near[of "5" "4278419646001971 / 2 ^ 52 * 50" 6685030696878080] by simp
  qed
qed

lemma timeBonus_tie_lower:
  assumes "0 \<le> d" "d < 60" "d mod 6 = 3"
  shows "of_int d * 5 / 6 \<le> fl (fl (of_int d / 60) * 50)"
proof -
  from assms have "d = 3 \<or> d = 9 \<or> d = 15 \<or> d = 21 \<or> d = 27 \<or> d = 33 \<or> d = 39 \<or> d = 45
      \<or> d = 51 \<or> d = 57"
    by presburger
  then show ?thesis
    by (elim disjE) (simp_all only: timeBonus_ties, simp_all)
qed

lemma timeBonus_full:
  assumes "60 \<le> d"
  shows "min 50 (fl (fl (of_int d / 60) * 50)) = 50"
proof -
  have "(1::rat) \<le> of_int d / 60"
    using assms by simp
  then have "fl 1 \<le> fl (of_int d / 60)"
    by (rule fl_mono)
  moreover have "fl 1 = 1"
    using fl_of_int[of 1] by simp
  ultimately have "50 \<le> fl (of_int d / 60) * 50"
    by simp
  then have "fl 50 \<le> fl (fl (of_int d / 60) * 50)"
    by (rule fl_mono)
  moreover have "fl 50 = 50"
    using fl_of_int[of 50] by simp
  ultimately show ?thesis
    by simp
qed

lemma timeBonus_error:
  assumes "0 \<le> d" "d < 60"
  shows "\<bar>fl (fl (of_int d / 60) * 50) - of_int d * 5 / 6\<bar> \<le> 1 / 2 ^ 46"
proof -
  define x1 :: rat where "x1 = of_int d / 60"
  define x2 :: rat where "x2 = fl x1 * 50"
  have "(of_int d :: rat) \<le> 59" "(0::rat) \<le> of_int d"
    using assms by simp_all
  then have x1: "0 \<le> x1" "x1 \<le> 59 / 60"
    by (simp_all add: x1_def)
  have e1: "\<bar>fl x1 - x1\<bar> \<le> 1 / 9007199254740992"
    using fl_error[of x1 0] x1 by simp
  with x1 have "\<bar>x2\<bar> < 64"
    unfolding x2_def by linarith
  then have e2: "\<bar>fl x2 - x2\<bar> \<le> 1 / 140737488355328"
    using fl_error[of x2 6] by simp
  have "x1 * 50 = of_int d * 5 / 6"
    by (simp add: x1_def)
  with e1 e2 have "\<bar>fl x2 - of_int d * 5 / 6\<bar> \<le> 1 / 70368744177664"
    unfolding x2_def by linarith
  then show ?thesis
    by (simp add: x2_def x1_def)
qed

lemma readinessScore_unfold:
  "readinessScore d wts =
     math_round (max 0 (min 100 (fl (fl (50 - fl (of_nat (length wts) * 5))
                                     + min 50 (fl (fl (of_int d / 60) * 50))))))"
  by (simp add: readinessScore_def Let_def)

lemma spec_readinessScore_unfold:
  "spec_readinessScore d w =
     \<lfloor>max 0 (min 100 (50 - of_nat w * 5 + min 50 (of_int d / 60 * 50 :: rat))) + 1 / 2\<rfloor>"
  by (simp add: spec_readinessScore_def round_def)

lemma penalty_exact:
  assumes "w < 20"
  shows "fl (50 - fl (of_nat w * 5)) = of_int (50 - 5 * int w)"
proof -
  have "fl (of_int (5 * int w)) = of_int (5 * int w)"
    using assms by (intro fl_of_int) simp
  then have a: "fl (of_nat w * 5) = of_int (5 * int w)"
    by (simp add: mult.commute)
  have "fl (of_int (50 - 5 * int w)) = of_int (50 - 5 * int w)"
    using assms by (intro fl_of_int) simp
  then show ?thesis
    unfolding a by simp
qed

lemma penalty_large:
  assumes "20 \<le> w"
  shows "fl (50 - fl (of_nat w * 5)) \<le> - 50"
proof -
  have "(100::rat) \<le> of_nat w * 5"
    using assms by simp
  then have "fl 100 \<le> fl (of_nat w * 5)"
    by (rule fl_mono)
  moreover have "fl 100 = 100"
    using fl_of_int[of 100] by simp
  ultimately have "50 - fl (of_nat w * 5) \<le> - 50"
    by simp
  then have "fl (50 - fl (of_nat w * 5)) \<le> fl (- 50)"
    by (rule fl_mono)
  moreover have "fl (- 50) = - 50"
    using fl_of_int[of "- 50"] by simp
  ultimately show ?thesis
    by simp
qed

lemma math_round_sixths:
  assumes "a mod 6 \<noteq> 0" and "\<bar>s - (of_int a / 6 - 1 / 2)\<bar> \<le> 1 / 35184372088832"
  shows "math_round s = a div 6"
proof -
  define q r where "q = a div 6" and "r = a mod 6"
  have a: "a = 6 * q + r"
    by (simp add: q_def r_def)
  have r: "1 \<le> r" "r \<le> 5"
    using assms(1) by (simp_all add: r_def)
  then have "(1::rat) \<le> of_int r" "(of_int r :: rat) \<le> 5"
    by simp_all
  moreover have "(of_int a :: rat) / 6 = of_int q + of_int r / 6"
    by (simp add: a)
  ultimately have "of_int q \<le> s + 1 / 2" "s + 1 / 2 < of_int q + 1"
    using assms(2) by linarith+
  then show ?thesis
    unfolding math_round_def q_def[symmetric] by (rule floor_unique)
qed

lemma math_round_half:
  assumes "of_int z - 1 / 2 \<le> s" and "s \<le> of_int z - 1 / 2 + 1 / 35184372088832"
  shows "math_round s = z"
  unfolding math_round_def by (rule floor_unique) (use assms in linarith)+

lemma score_close:
  assumes "w < 20" "0 \<le> d" "d < 60"
  shows "\<bar>fl (fl (50 - fl (of_nat w * 5)) + min 50 (fl (fl (of_int d / 60) * 50)))
          - (of_int (50 - 5 * int w) + of_int d * 5 / 6)\<bar> \<le> 1 / 35184372088832"
proof -
  define tb :: rat where "tb = fl (fl (of_int d / 60) * 50)"
  define N where "N = 50 - 5 * int w"
  have "(of_int d :: rat) \<le> 59" "(0::rat) \<le> of_int d"
    using assms by simp_all
  then have t: "(0::rat) \<le> of_int d * 5 / 6" "(of_int d :: rat) * 5 / 6 \<le> 295 / 6"
    by simp_all
  have e: "\<bar>tb - of_int d * 5 / 6\<bar> \<le> 1 / 70368744177664"
    using timeBonus_error[OF assms(2,3)] by (simp add: tb_def)
  with t have m: "min 50 tb = tb"
    by linarith
  have "- 45 \<le> N" "N \<le> 50"
    using assms(1) by (simp_all add: N_def)
  then have N: "(- 45 :: rat) \<le> of_int N" "(of_int N :: rat) \<le> 50"
    by simp_all
  with e t have "\<bar>of_int N + tb\<bar> < 128"
    by linarith
  then have "\<bar>fl (of_int N + tb) - (of_int N + tb)\<bar> \<le> 1 / 70368744177664"
    using fl_error[of "of_int N + tb" 7] by simp
  with e have "\<bar>fl (of_int N + tb) - (of_int N + of_int d * 5 / 6)\<bar> \<le> 1 / 35184372088832"
    by linarith
  then show ?thesis
    unfolding penalty_exact[OF assms(1)] tb_def[symmetric] m N_def[symmetric] .
qed

lemma score_tie_lower:
  assumes "w < 20" "0 \<le> d" "d < 60" "d mod 6 = 3"
  shows "of_int (50 - 5 * int w) + of_int d * 5 / 6
          \<le> fl (fl (50 - fl (of_nat w * 5)) + min 50 (fl (fl (of_int d / 60) * 50)))"
proof -
  define tb :: rat where "tb = fl (fl (of_int d / 60) * 50)"
  define N where "N = 50 - 5 * int w"
  define k where "k = d div 6"
  have d: "d = 6 * k + 3"
    using assms(4) by (simp add: k_def) presburger
  have k: "0 \<le> k" "k < 10"
    using assms(2,3) d by simp_all
  have "(of_int d :: rat) \<le> 59" "(0::rat) \<le> of_int d"
    using assms by simp_all
  then have t: "(0::rat) \<le> of_int d * 5 / 6" "(of_int d :: rat) * 5 / 6 \<le> 295 / 6"
    by simp_all
  have "\<bar>tb - of_int d * 5 / 6\<bar> \<le> 1 / 70368744177664"
    using timeBonus_error[OF assms(2,3)] by (simp add: tb_def)
  with t have m: "min 50 tb = tb"
    by linarith
  have lower: "of_int d * 5 / 6 \<le> tb"
    unfolding tb_def using assms(2-4) by (rule timeBonus_tie_lower)
  have v: "of_int N + (of_int d :: rat) * 5 / 6 = of_int (2 * N + 10 * k + 5) * 2 powi (- 1)"
    by (simp add: d field_simps)
  have "\<bar>2 * N + 10 * k + 5\<bar> < 2 ^ 53"
    using assms(1) k by (simp add: N_def)
  then have "fl (of_int (2 * N + 10 * k + 5) * 2 powi (- 1)) = of_int (2 * N + 10 * k + 5) * 2 powi (- 1)"
    by (rule fl_exact)
  then have "fl (of_int N + of_int d * 5 / 6) = of_int N + of_int d * 5 / 6"
    unfolding v .
  moreover have "fl (of_int N + of_int d * 5 / 6) \<le> fl (of_int N + tb)"
    using lower by (intro fl_mono) simp
  ultimately have "of_int N + of_int d * 5 / 6 \<le> fl (of_int N + tb)"
    by simp
  then show ?thesis
    unfolding penalty_exact[OF assms(1)] tb_def[symmetric] m N_def[symmetric] .
qed

lemma math_round_small: "0 \<le> s \<Longrightarrow> s < 1 / 2 \<Longrightarrow> math_round s = 0"
  unfolding math_round_def by (rule floor_unique) simp_all

lemma clamped_round_off_tie:
  assumes "a mod 6 \<noteq> 0" "a < 603"
    and "\<bar>s - (of_int a / 6 - 1 / 2)\<bar> \<le> 1 / 35184372088832"
  shows "math_round (max 0 (min 100 s)) = math_round (max 0 (min 100 (of_int a / 6 - 1 / 2)))"
proof (cases "a \<le> 3")
  case True
  then have "(of_int a :: rat) \<le> 3"
    by simp
  with assms(3) have "max 0 (min 100 (of_int a / 6 - 1 / 2 :: rat)) = 0"
    "0 \<le> max 0 (min 100 s)" "max 0 (min 100 s) < 1 / 2"
    by linarith+
  then show ?thesis
    by (simp add: math_round_small)
next
  case False
  with assms(2) have "4 \<le> a" "a \<le> 602"
    by simp_all
  then have "(4 :: rat) \<le> of_int a" "(of_int a :: rat) \<le> 602"
    by simp_all
  with assms(3) have "max 0 (min 100 (of_int a / 6 - 1 / 2 :: rat)) = of_int a / 6 - 1 / 2"
    "max 0 (min 100 s) = s"
    by linarith+
  moreover have "math_round s = a div 6"
    using assms(1,3) by (rule math_round_sixths)
  moreover have "math_round (of_int a / 6 - 1 / 2) = a div 6"
    using assms(1) by (rule math_round_sixths) simp
  ultimately show ?thesis
    by simp
qed

lemma clamped_round_tie:
  assumes "a mod 6 = 0" "a < 603"
    and "of_int a / 6 - 1 / 2 \<le> s" "s \<le> of_int a / 6 - 1 / 2 + 1 / 35184372088832"
  shows "math_round (max 0 (min 100 s)) = math_round (max 0 (min 100 (of_int a / 6 - 1 / 2)))"
proof -
  define z where "z = a div 6"
  have a: "a = 6 * z"
    using assms(1) by (simp add: z_def) presburger
  have v: "(of_int a :: rat) / 6 - 1 / 2 = of_int z - 1 / 2"
    by (simp add: a)
  show ?thesis
  proof (cases "z \<le> 0")
    case True
    then have "(of_int z :: rat) \<le> 0"
      by simp
    with assms(4) have "max 0 (min 100 s) = 0" "max 0 (min 100 (of_int z - 1 / 2 :: rat)) = 0"
      unfolding v by linarith+
    then show ?thesis
      unfolding v by simp
  next
    case False
    with assms(2) have "1 \<le> z" "z \<le> 100"
      by (simp_all add: a)
    then have "(1 :: rat) \<le> of_int z" "(of_int z :: rat) \<le> 100"
      by simp_all
    with assms(3,4) have "max 0 (min 100 s) = s"
      "max 0 (min 100 (of_int z - 1 / 2 :: rat)) = of_int z - 1 / 2"
      unfolding v by linarith+
    moreover have "math_round s = z"
      using assms(3,4) unfolding v by (rule math_round_half)
    moreover have "math_round (of_int z - 1 / 2) = z"
      by (rule math_round_half) simp_all
    ultimately show ?thesis
      unfolding v by simp
  qed
qed

lemma readinessScore_eq_spec:
  assumes "0 \<le> d"
  shows "readinessScore d wts = spec_readinessScore d (length wts)"
proof -
  define w where "w = length wts"
  define tb :: rat where "tb = min 50 (fl (fl (of_int d / 60) * 50))"
  define s :: rat where "s = fl (fl (50 - fl (of_nat w * 5)) + tb)"
  have code: "readinessScore d wts = math_round (max 0 (min 100 s))"
    by (simp only: readinessScore_unfold s_def tb_def w_def)
  have spec: "spec_readinessScore d w =
      math_round (max 0 (min 100 (50 - of_nat w * 5 + min 50 (of_int d / 60 * 50))))"
    by (simp only: spec_readinessScore_unfold math_round_def)
  have "math_round (max 0 (min 100 s)) =
      math_round (max 0 (min 100 (50 - of_nat w * 5 + min 50 (of_int d / 60 * 50))))"
  proof (cases "w < 20")
    case False
    then have "fl (50 - fl (of_nat w * 5)) \<le> - 50"
      by (intro penalty_large) simp
    moreover have "tb \<le> 50"
      by (simp add: tb_def)
    ultimately have "fl (fl (50 - fl (of_nat w * 5)) + tb) \<le> fl 0"
      by (intro fl_mono) linarith
    then have "s \<le> 0"
      by (simp add: s_def fl_0)
    then have a: "max 0 (min 100 s) = 0"
      by simp
    have "(100::rat) \<le> of_nat w * 5"
      using False by simp
    then have "50 - of_nat w * 5 + min 50 (of_int d / 60 * 50 :: rat) \<le> 0"
      by linarith
    then have b: "max 0 (min 100 (50 - of_nat w * 5 + min 50 (of_int d / 60 * 50 :: rat))) = 0"
      by simp
    show ?thesis
      unfolding a b by (rule refl)
  next
    case w: True
    define N where "N = 50 - 5 * int w"
    have N: "- 45 \<le> N" "N \<le> 50"
      using w by (simp_all add: N_def)
    have pen: "(50::rat) - of_nat w * 5 = of_int N"
      by (simp add: N_def)
    show ?thesis
    proof (cases "60 \<le> d")
      case True
      then have tb: "tb = 50"
        unfolding tb_def by (rule timeBonus_full)
      have "fl (of_int (N + 50)) = of_int (N + 50)"
        using N by (intro fl_of_int) simp
      then have a: "s = of_int N + 50"
        by (simp add: s_def tb penalty_exact[OF w] N_def[symmetric])
      have "(50::rat) \<le> of_int d / 60 * 50"
        using True by simp
      then have b: "min 50 (of_int d / 60 * 50 :: rat) = 50"
        by simp
      show ?thesis
        unfolding a b pen by (rule refl)
    next
      case False
      with assms have d: "0 \<le> d" "d < 60"
        by simp_all
      define a where "a = 6 * N + 5 * d + 3"
      have a603: "a < 603"
        using N d by (simp add: a_def)
      have v: "of_int N + of_int d * 5 / 6 = (of_int a :: rat) / 6 - 1 / 2"
        by (simp add: a_def field_simps)
      have "(of_int d :: rat) \<le> 59"
        using d by simp
      then have "min 50 (of_int d / 60 * 50 :: rat) = of_int d * 5 / 6"
        by simp
      then have b: "50 - of_nat w * 5 + min 50 (of_int d / 60 * 50 :: rat) = of_int a / 6 - 1 / 2"
        unfolding pen v[symmetric] by simp
      have close: "\<bar>s - (of_int a / 6 - 1 / 2)\<bar> \<le> 1 / 35184372088832"
        using score_close[OF w d] unfolding s_def tb_def N_def[symmetric] v .
      show ?thesis
      proof (cases "d mod 6 = 3")
        case True
        then have "a mod 6 = 0"
          unfolding a_def by presburger
        moreover have "of_int a / 6 - 1 / 2 \<le> s"
          using score_tie_lower[OF w d True] unfolding s_def tb_def N_def[symmetric] v .
        moreover have "s \<le> of_int a / 6 - 1 / 2 + 1 / 35184372088832"
          using close by linarith
        ultimately show ?thesis
          unfolding b using a603 by (intro clamped_round_tie)
      next
        case False
        then have "a mod 6 \<noteq> 0"
          unfolding a_def by presburger
        then show ?thesis
          unfolding b using a603 close by (intro clamped_round_off_tie)
      qed
    qed
  qed
  then have "readinessScore d wts = spec_readinessScore d w"
    by (simp only: code spec)
  then show ?thesis
    by (simp only: w_def)
qed

lemma spec_readinessScore_range:
  "0 \<le> spec_readinessScore d w \<and> spec_readinessScore d w \<le> 100"
proof -
  define c :: rat where "c = max 0 (min 100 (50 - of_nat w * 5 + min 50 (of_int d / 60 * 50)))"
  have "0 \<le> c" "c \<le> 100"
    by (simp_all add: c_def)
  then have "of_int 0 \<le> c + 1 / 2" "c + 1 / 2 < of_int 101"
    by simp_all
  then have "0 \<le> \<lfloor>c + 1 / 2\<rfloor>" "\<lfloor>c + 1 / 2\<rfloor> < 101"
    by (simp_all only: le_floor_iff floor_less_iff)
  then show ?thesis
    by (simp add: spec_readinessScore_unfold c_def)
qed

lemma spec_readinessScore_examples:
  "spec_readinessScore 60 0 = 100" "spec_readinessScore 0 10 = 0" "spec_readinessScore 33 2 = 68"
  unfolding spec_readinessScore_def round_def by (rule floor_unique; simp)+

text \<open>
  Claim C3.  For every number of days left that is not negative and every list of weak
  topics, the readiness score computed in binary64 arithmetic is the score of the
  specification computed in exact arithmetic: 50 minus 5 per weak topic plus the time
  bonus \<open>min 50 (days / 60 * 50)\<close>, clamped to the interval from 0 to 100 and then rounded
  to the nearest integer (a tie going up, as \<open>Math.round\<close> does).  The score is between 0
  and 100; it is 100 for 60 days and no weak topic, and 0 for 0 days and 10 weak topics.
\<close>

theorem readinessScore_formula:
  assumes "0 \<le> days"
  shows "readinessScore days wts = spec_readinessScore days (length wts) \<and>
         0 \<le> readinessScore days wts \<and> readinessScore days wts \<le> 100 \<and>
         readinessScore 60 [] = 100 \<and>
         readinessScore 0 (replicate 10 t) = 0"
proof -
  have "readinessScore days wts = spec_readinessScore days (length wts)"
    using assms by (rule readinessScore_eq_spec)
  moreover have "readinessScore 60 [] = 100"
    using readinessScore_eq_spec[of 60 "[]"] by (simp add: spec_readinessScore_examples)
  moreover have "readinessScore 0 (replicate 10 t) = 0"
    using readinessScore_eq_spec[of 0 "replicate 10 t"] by (simp add: spec_readinessScore_examples)
  ultimately show ?thesis
    using spec_readinessScore_range[of days "length wts"] by simp
qed

theorem readinessScore_formula_witness:
  "(0::int) \<le> 33 \<and>
   readinessScore 33 [js_str ''Calculus'', js_str ''Quantum Mechanics''] = 68 \<and>
   readinessScore 60 [] = 100"
proof -
  have len: "length [js_str ''Calculus'', js_str ''Quantum Mechanics''] = 2"
    by simp
  have h: "(0::int) \<le> 33"
    by simp
  from readinessScore_formula[OF h, of "[js_str ''Calculus'', js_str ''Quantum Mechanics'']"]
  have "readinessScore 33 [js_str ''Calculus'', js_str ''Quantum Mechanics''] = spec_readinessScore 33 2"
    and "readinessScore 60 [] = 100"
    unfolding len by blast+
  with h show ?thesis
    by (simp only: spec_readinessScore_examples)
qed

section \<open>The priority focus\<close>

lemma recommendedHours_unfold:
  "recommendedHours n = \<lceil>fl (of_int n * (3602879701896397 / 2 ^ 53))\<rceil>"
  by (simp only: recommendedHours_def math_ceil_def literal_0_4)

lemma product_0_4:
  "(of_int n :: rat) * (3602879701896397 / 2 ^ 53) = of_int (2 * n) / 5 + of_int n / (5 * 2 ^ 53)"
  by (simp add: field_simps)

lemma recommendedHours_off_multiple:
  assumes "\<bar>n\<bar> \<le> 2 ^ 51" "n mod 5 \<noteq> 0"
  shows "recommendedHours n = spec_recommendedHours n"
proof -
  define x :: rat where "x = of_int n * (3602879701896397 / 2 ^ 53)"
  define j r where "j = (2 * n) div 5" and "r = (2 * n) mod 5"
  have jr: "2 * n = 5 * j + r"
    by (simp add: j_def r_def)
  have "r \<noteq> 0"
    using assms(2) unfolding r_def by presburger
  then have r: "1 \<le> r" "r \<le> 4"
    by (simp_all add: r_def)
  then have r': "(1::rat) \<le> of_int r" "(of_int r :: rat) \<le> 4"
    by simp_all
  have n: "(of_int n :: rat) \<le> 2251799813685248" "(- 2251799813685248 :: rat) \<le> of_int n"
    using assms(1) by (simp_all add: abs_le_iff)
  have "(of_int (2 * n) :: rat) = 5 * of_int j + of_int r"
    by (simp only: jr of_int_add of_int_mult of_int_numeral)
  then have x: "x = of_int j + of_int r / 5 + of_int n / 45035996273704960"
    unfolding x_def product_0_4 by simp
  have "\<bar>x\<bar> < 2 powi 50"
    using n unfolding x_def by simp
  then have "\<bar>fl x - x\<bar> \<le> 1 / 8"
    using fl_error[of x 50] by simp
  with x r' n have "of_int j < fl x" "fl x \<le> of_int j + 1"
    by linarith+
  then have "\<lceil>fl x\<rceil> = j + 1"
    by (intro ceiling_unique) simp_all
  moreover have "(of_int n :: rat) * (4 / 10) = of_int (2 * n) / 5"
    by simp
  then have "(of_int n :: rat) * (4 / 10) = of_int j + of_int r / 5"
    by (simp add: jr)
  with r' have "\<lceil>of_int n * (4 / 10 :: rat)\<rceil> = j + 1"
    by (intro ceiling_unique) simp_all
  ultimately show ?thesis
    by (simp only: recommendedHours_unfold spec_recommendedHours_def x_def)
qed

lemma recommendedHours_multiple:
  assumes "\<bar>k\<bar> \<le> 2 ^ 49"
  shows "recommendedHours (5 * k) = spec_recommendedHours (5 * k)"
proof -
  define x :: rat where "x = of_int (5 * k) * (3602879701896397 / 2 ^ 53)"
  have x: "x = of_int (2 * k) + of_int k / 2 ^ 53"
    unfolding x_def product_0_4 by simp
  have "fl x = of_int (2 * k)"
  proof (cases "k = 0")
    case True
    then show ?thesis by (simp add: x fl_0)
  next
    case False
    define e where "e = ilog2 \<bar>of_int (2 * k)\<bar>"
    have pos: "(0::rat) < \<bar>of_int (2 * k)\<bar>"
      using False by simp
    have lo: "2 powi e \<le> \<bar>of_int (2 * k) :: rat\<bar>"
      and hi: "\<bar>of_int (2 * k) :: rat\<bar> < 2 powi (e + 1)"
      unfolding e_def using ilog2_bounds[OF pos] by simp_all
    have "(2::rat) powi 1 \<le> \<bar>of_int (2 * k)\<bar>"
    proof -
      have "1 \<le> \<bar>k\<bar>" using False by simp
      then have "(1::rat) \<le> of_int \<bar>k\<bar>" by (simp only: of_int_1_le_iff)
      then show ?thesis by (simp add: abs_mult)
    qed
    then have e1: "1 \<le> e"
      unfolding e_def by (rule ilog2_ge)
    have "(of_int \<bar>k\<bar> :: rat) \<le> of_int (2 ^ 49)"
      using assms by (simp only: of_int_le_iff)
    then have "\<bar>of_int (2 * k) :: rat\<bar> < 2 powi 51"
      by (simp add: abs_mult)
    then have "e < 51"
      unfolding e_def using pos by (intro ilog2_less)
    have p1: "(2::rat) powi (e + 1) = of_int (2 ^ nat (e + 1))"
      using e1 by (intro two_powi_nat) simp
    have "\<bar>2 * k\<bar> < 2 ^ nat (e + 1)"
      using hi unfolding p1 by (simp only: of_int_abs[symmetric] of_int_less_iff)
    then have "\<bar>2 * k\<bar> + 1 \<le> 2 ^ nat (e + 1)"
      by simp
    then have "(of_int (\<bar>2 * k\<bar> + 1) :: rat) \<le> of_int (2 ^ nat (e + 1))"
      by (simp only: of_int_le_iff)
    then have hi': "\<bar>of_int (2 * k) :: rat\<bar> + 1 \<le> 2 powi (e + 1)"
      unfolding p1 by simp
    have small: "\<bar>of_int k :: rat\<bar> / 2 ^ 53 < 1"
      using \<open>(of_int \<bar>k\<bar> :: rat) \<le> of_int (2 ^ 49)\<close> by simp
    have absx: "\<bar>x\<bar> = \<bar>of_int (2 * k) :: rat\<bar> + \<bar>of_int k\<bar> / 2 ^ 53"
      unfolding x by (cases "0 \<le> k") (simp_all add: abs_if field_simps)
    have b1: "2 powi e \<le> \<bar>x\<bar>"
      using lo unfolding absx by (simp add: add_increasing2)
    have b2: "\<bar>x\<bar> < 2 powi (e + 1)"
      using hi' small unfolding absx by linarith
    have k52: "0 \<le> 52 - e"
      using \<open>e < 51\<close> by simp
    have "(1::rat) = 2 powi (52 - e) * 2 powi (e - 52)"
      using power_int_add[of "2::rat" "52 - e" "e - 52"] by simp
    also have "\<dots> = of_int (2 ^ nat (52 - e)) * 2 powi (e - 52)"
      using two_powi_nat[OF k52] by simp
    finally have "(of_int (2 * k) :: rat) = of_int (2 * k * 2 ^ nat (52 - e)) * 2 powi (e - 52)"
      by (simp add: mult.assoc)
    then have m: "x - of_int (2 * k * 2 ^ nat (52 - e)) * 2 powi (e - 52) = of_int k / 2 ^ 53"
      unfolding x by simp
    have "2 * \<bar>of_int k :: rat\<bar> < 2 * 2 powi e"
      using hi unfolding two_powi_Suc by (simp add: abs_mult)
    then have "\<bar>of_int k :: rat\<bar> < 2 powi e"
      by simp
    then have "\<bar>of_int k :: rat\<bar> / 2 ^ 53 < 2 powi e / 2 ^ 53"
      by (simp add: divide_strict_right_mono)
    also have "\<dots> = 2 powi (e - 53)"
      using power_int_diff[of "2::rat" e 53] by simp
    finally have b3: "\<bar>x - of_int (2 * k * 2 ^ nat (52 - e)) * 2 powi (e - 52)\<bar> < 2 powi (e - 53)"
      unfolding m by (simp add: abs_divide)
    from fl_near[OF b1 b2 b3] \<open>(of_int (2 * k) :: rat) = of_int (2 * k * 2 ^ nat (52 - e)) * 2 powi (e - 52)\<close>
    show ?thesis by simp
  qed
  then have "recommendedHours (5 * k) = 2 * k"
    unfolding recommendedHours_unfold x_def[symmetric] by (simp only: ceiling_of_int)
  moreover have "(of_int (5 * k) :: rat) * (4 / 10) = of_int (2 * k)"
    by simp
  then have "spec_recommendedHours (5 * k) = 2 * k"
    unfolding spec_recommendedHours_def by (simp only: ceiling_of_int)
  ultimately show ?thesis
    by simp
qed

lemma recommendedHours_eq_spec:
  assumes "\<bar>n\<bar> \<le> 2 ^ 51"
  shows "recommendedHours n = spec_recommendedHours n"
proof (cases "n mod 5 = 0")
  case False
  with assms show ?thesis
    by (rule recommendedHours_off_multiple)
next
  case True
  define k where "k = n div 5"
  have n: "n = 5 * k"
    using True by (simp add: k_def) presburger
  have "\<bar>k\<bar> \<le> 2 ^ 49"
    using assms unfolding n by simp
  then show ?thesis
    unfolding n by (rule recommendedHours_multiple)
qed

lemma recommendedHours_large:
  "recommendedHours 11258999068426248 = 4503599627370499"
  "spec_recommendedHours 11258999068426248 = 4503599627370500"
  "fl 11258999068426248 = 11258999068426248"
proof -
  have "fl (of_int 11258999068426248 * (3602879701896397 / 2 ^ 53)) = of_int 4503599627370499 * 2 powi (52 - 52)"
    by (rule fl_near) simp_all
  then show "recommendedHours 11258999068426248 = 4503599627370499"
    unfolding recommendedHours_unfold by simp
  show "spec_recommendedHours 11258999068426248 = 4503599627370500"
    unfolding spec_recommendedHours_def by (intro ceiling_unique) simp_all
  show "fl 11258999068426248 = 11258999068426248"
    using fl_exact[of 1407374883553281 3] by simp
qed

lemma spec_recommendedHours_examples:
  "spec_recommendedHours 4 = 2" "spec_recommendedHours 5 = 2"
  unfolding spec_recommendedHours_def by (rule ceiling_unique; simp)+

lemma set_filter_from: "set (filter_from i p xs) \<subseteq> set xs"
  by (induction xs arbitrary: i) auto

lemma set_js_filter: "set (js_filter p xs) \<subseteq> set xs"
  unfolding js_filter_def by (rule set_filter_from)

lemma js_str_topics: "js_str ''Calculus'' \<noteq> []" "js_str ''Quantum Mechanics'' \<noteq> []"
  by (simp_all add: js_str_def)

text \<open>
  In every state the component can reach, no weak topic is the empty string, as only the
  handler adds one and it adds a trimmed string that is not empty; and the daily hours
  are between 1 and 16.
\<close>

lemma reachable_inputs:
  assumes "reachable st"
  shows "(\<forall>t \<in> set (weakTopics st). t \<noteq> []) \<and> 1 \<le> dailyHours st \<and> dailyHours st \<le> 16"
  using assms
proof (induction rule: reachable.induct)
  case (first_render d)
  show ?case
    by (simp add: initial_state_def js_str_topics)
next
  case (weak_topic_removed st index)
  then show ?case
    using set_js_filter[of "\<lambda>_ i. int i \<noteq> index" "weakTopics st"]
    by (auto simp: handleRemoveWeakTopic_def)
qed (auto simp: setExamDate_def setDailyHours_def handleAddSubject_def handleRemoveSubject_def
      handleAddWeakTopic_def)

lemma focusText_first:
  assumes "\<forall>t \<in> set wts. t \<noteq> []"
  shows "focusText wts = (case wts of [] \<Rightarrow> js_str ''your core subjects'' | t # _ \<Rightarrow> t)"
  using assms by (cases wts) (simp_all add: focusText_def focusTopic_def)

text \<open>
  Claim C5.  The topic of the priority focus is the first weak topic, and none when
  there is no weak topic, in which case the paragraph shows its generic words; the
  recommended hours are the ceiling of \<open>dailyHours * 0.4\<close> in exact arithmetic.  This
  holds for every list of weak topics without an empty string and every integer
  \<open>dailyHours\<close> of absolute value at most \<open>2 ^ 51\<close>, and these are all the inputs the
  component can receive: in every reachable state no weak topic is empty and
  \<open>dailyHours\<close> is between 1 and 16.  With no weak topic and 4 hours the topic is none
  and the hours are 2; with the one weak topic ``Calculus'' and 5 hours the topic is
  ``Calculus'' and the hours are 2.
\<close>

theorem priorityFocus_spec:
  "focusTopic wts = (case wts of [] \<Rightarrow> None | t # _ \<Rightarrow> Some t) \<and>
   ((\<forall>t \<in> set wts. t \<noteq> []) \<longrightarrow>
      focusText wts = (case wts of [] \<Rightarrow> js_str ''your core subjects'' | t # _ \<Rightarrow> t)) \<and>
   (\<bar>hours\<bar> \<le> 2 ^ 51 \<longrightarrow> recommendedHours hours = spec_recommendedHours hours) \<and>
   (reachable st \<longrightarrow>
      (\<forall>t \<in> set (weakTopics st). t \<noteq> []) \<and> 1 \<le> dailyHours st \<and> dailyHours st \<le> 16 \<and>
      focusText (weakTopics st) =
        (case weakTopics st of [] \<Rightarrow> js_str ''your core subjects'' | t # _ \<Rightarrow> t) \<and>
      recommendedHours (dailyHours st) = spec_recommendedHours (dailyHours st)) \<and>
   focusTopic [] = None \<and> focusText [] = js_str ''your core subjects'' \<and>
   recommendedHours 4 = 2 \<and>
   focusTopic [js_str ''Calculus''] = Some (js_str ''Calculus'') \<and>
   focusText [js_str ''Calculus''] = js_str ''Calculus'' \<and>
   recommendedHours 5 = 2"
proof (intro conjI impI)
  show "focusTopic wts = (case wts of [] \<Rightarrow> None | t # _ \<Rightarrow> Some t)"
    by (simp add: focusTopic_def)
  show "focusTopic [] = None" "focusText [] = js_str ''your core subjects''"
    "focusTopic [js_str ''Calculus''] = Some (js_str ''Calculus'')"
    "focusText [js_str ''Calculus''] = js_str ''Calculus''"
    by (simp_all add: focusTopic_def focusText_def js_str_topics)
  show "recommendedHours 4 = 2" "recommendedHours 5 = 2"
    using recommendedHours_eq_spec[of 4] recommendedHours_eq_spec[of 5]
    by (simp_all add: spec_recommendedHours_examples)
next
  assume "\<forall>t \<in> set wts. t \<noteq> []"
  then show "focusText wts = (case wts of [] \<Rightarrow> js_str ''your core subjects'' | t # _ \<Rightarrow> t)"
    by (rule focusText_first)
next
  assume "\<bar>hours\<bar> \<le> 2 ^ 51"
  then show "recommendedHours hours = spec_recommendedHours hours"
    by (rule recommendedHours_eq_spec)
next
  assume "reachable st"
  note inv = reachable_inputs[OF this]
  from inv show "\<forall>t \<in> set (weakTopics st). t \<noteq> []" "1 \<le> dailyHours st" "dailyHours st \<le> 16"
    by blast+
  from inv show "focusText (weakTopics st) =
        (case weakTopics st of [] \<Rightarrow> js_str ''your core subjects'' | t # _ \<Rightarrow> t)"
    by (intro focusText_first) blast
  from inv have "\<bar>dailyHours st\<bar> \<le> 2 ^ 51"
    by simp
  then show "recommendedHours (dailyHours st) = spec_recommendedHours (dailyHours st)"
    by (rule recommendedHours_eq_spec)
qed

theorem priorityFocus_spec_witness:
  "reachable (setDailyHours 5 (initial_state [])) \<and>
   focusText (weakTopics (setDailyHours 5 (initial_state []))) = js_str ''Calculus'' \<and>
   recommendedHours (dailyHours (setDailyHours 5 (initial_state []))) = 2 \<and>
   \<bar>16 :: int\<bar> \<le> 2 ^ 51 \<and> recommendedHours 16 = 7"
proof -
  have r: "reachable (setDailyHours 5 (initial_state []))"
    by (intro reachable.slider_changed reachable.first_render) simp_all
  have s16: "spec_recommendedHours 16 = 7"
    unfolding spec_recommendedHours_def by (rule ceiling_unique; simp)
  have h16: "\<bar>16 :: int\<bar> \<le> 2 ^ 51"
    by simp
  note t = priorityFocus_spec[where st = "setDailyHours 5 (initial_state [])" and hours = 16
      and wts = "[]"]
  from t r have "focusText (weakTopics (setDailyHours 5 (initial_state []))) =
        (case weakTopics (setDailyHours 5 (initial_state [])) of
           [] \<Rightarrow> js_str ''your core subjects'' | t # _ \<Rightarrow> t)"
    and "recommendedHours (dailyHours (setDailyHours 5 (initial_state [])))
          = spec_recommendedHours (dailyHours (setDailyHours 5 (initial_state [])))"
    by blast+
  then have a: "focusText (weakTopics (setDailyHours 5 (initial_state []))) = js_str ''Calculus''"
    and b: "recommendedHours (dailyHours (setDailyHours 5 (initial_state []))) = 2"
    by (simp_all add: setDailyHours_def initial_state_def spec_recommendedHours_examples)
  from t h16 have "recommendedHours 16 = spec_recommendedHours 16"
    by blast
  then have c: "recommendedHours 16 = 7"
    by (simp only: s16)
  from r a b h16 c show ?thesis
    by blast
qed

text \<open>
  The bound on the hours is far from the slider and is needed: a product of the size of
  \<open>2 ^ 52\<close> is rounded to a whole number before \<open>Math.ceil\<close> sees it.
\<close>

lemma recommendedHours_beyond_bound:
  "recommendedHours 11258999068426248 \<noteq> spec_recommendedHours 11258999068426248"
  by (simp add: recommendedHours_large)

end
